theory Spec2Isabelle
  imports Complex_Main "HOL-Library.Word"
begin

section \<open>ofx2json: the statement parser of main.go\<close>

text \<open>
  The program reads an OFX statement with the raw tokenizer of encoding/xml and fills an
  \<open>Ofx\<close> record. The embedding follows \<open>main.go\<close> function by function. Go strings are
  byte strings, so they are \<open>string\<close> (a list of 8-bit \<open>char\<close>) and \<open>length\<close> is
  Go's \<open>len\<close>. Library functions of Go that the program calls (\<open>strings.TrimSpace\<close>,
  \<open>time.Parse\<close>, \<open>strconv.ParseFloat\<close>, \<open>fmt.Sprintf\<close>, the float64 arithmetic)
  are modelled from their documented behaviour, each in its own subsection.
\<close>

subsection \<open>Outcomes of a Go call\<close>

text \<open>
  \<open>Parse\<close> has three ways to end: it returns a record, it returns an error, or the Go
  run time panics (an index out of range, a nil pointer dereference) and the process
  aborts without \<open>Parse\<close> returning at all.
\<close>

datatype error =
    InvalidDatePosted string   \<comment> \<open>\<open>fmt.Errorf("Invalid date posted string: '%s'", res)\<close>\<close>
  | TimeParseError string      \<comment> \<open>the error of \<open>time.Parse("20060102", res)\<close>\<close>

datatype runtime_panic = IndexOutOfRange | NilPointerDereference

datatype 'a outcome = Ok 'a | Err error | Panic runtime_panic

subsection \<open>strings.TrimSpace\<close>

text \<open>
  \<open>strings.TrimSpace\<close> removes leading and trailing white space as \<open>unicode.IsSpace\<close>
  defines it, decoding the bytes as UTF-8. A rune decoded at the front (or, with
  \<open>DecodeLastRuneInString\<close>, at the back) is a space exactly when the string begins
  (ends) with the UTF-8 encoding of a space: an invalid sequence decodes to
  \<open>RuneError\<close>, which is no space. The spaces are \<open>\t \n \v \f \r\<close>, the blank,
  U+0085, U+00A0, U+1680, U+2000 to U+200A, U+2028, U+2029, U+202F, U+205F and U+3000.
\<close>

definition space_encodings :: "string list" where
  "space_encodings =
     [[CHR 0x09], [CHR 0x0A], [CHR 0x0B], [CHR 0x0C], [CHR 0x0D], [CHR 0x20],
      [CHR 0xC2, CHR 0x85], [CHR 0xC2, CHR 0xA0],
      [CHR 0xE1, CHR 0x9A, CHR 0x80],
      [CHR 0xE2, CHR 0x80, CHR 0x80], [CHR 0xE2, CHR 0x80, CHR 0x81],
      [CHR 0xE2, CHR 0x80, CHR 0x82], [CHR 0xE2, CHR 0x80, CHR 0x83],
      [CHR 0xE2, CHR 0x80, CHR 0x84], [CHR 0xE2, CHR 0x80, CHR 0x85],
      [CHR 0xE2, CHR 0x80, CHR 0x86], [CHR 0xE2, CHR 0x80, CHR 0x87],
      [CHR 0xE2, CHR 0x80, CHR 0x88], [CHR 0xE2, CHR 0x80, CHR 0x89],
      [CHR 0xE2, CHR 0x80, CHR 0x8A],
      [CHR 0xE2, CHR 0x80, CHR 0xA8], [CHR 0xE2, CHR 0x80, CHR 0xA9],
      [CHR 0xE2, CHR 0x80, CHR 0xAF], [CHR 0xE2, CHR 0x81, CHR 0x9F],
      [CHR 0xE3, CHR 0x80, CHR 0x80]]"

text \<open>Strip, as long as there is one, a leading member of \<open>es\<close> (empty members never match).\<close>

function trim_prefixes :: "string list \<Rightarrow> string \<Rightarrow> string" where
  "trim_prefixes es s =
     (case find (\<lambda>e. e \<noteq> [] \<and> take (length e) s = e) es of
        Some e \<Rightarrow> trim_prefixes es (drop (length e) s)
      | None \<Rightarrow> s)"
  by pat_completeness auto
termination
proof (relation "measure (\<lambda>(es, s). length s)")
  show "wf (measure (\<lambda>(es :: string list, s :: string). length s))"
    by simp
next
  fix es :: "string list" and s e :: string
  assume "find (\<lambda>e. e \<noteq> [] \<and> take (length e) s = e) es = Some e"
  then have "e \<noteq> []" and "take (length e) s = e"
    by (auto simp: find_Some_iff)
  then have "s \<noteq> []" and "0 < length e"
    by auto
  then show "((es, drop (length e) s), (es, s)) \<in> measure (\<lambda>(es, s). length s)"
    by simp
qed

declare trim_prefixes.simps [simp del]

definition TrimSpace :: "string \<Rightarrow> string" where
  "TrimSpace s =
     rev (trim_prefixes (map rev space_encodings) (rev (trim_prefixes space_encodings s)))"

subsection \<open>time.Time and time.Parse with the layout 20060102\<close>

text \<open>
  Every \<open>time.Time\<close> of the program is either the zero value (January 1 of year 1,
  00:00 UTC) or the result of parsing the layout \<open>20060102\<close>, which is midnight UTC of a
  calendar date: the record keeps the date.
\<close>

record Time =
  year :: nat
  month :: nat
  day :: nat

definition zero_Time :: Time where
  "zero_Time = \<lparr>year = 1, month = 1, day = 1\<rparr>"

definition isDigit :: "char \<Rightarrow> bool" where
  "isDigit c = (48 \<le> (of_char c :: nat) \<and> (of_char c :: nat) \<le> 57)"

definition digit_val :: "char \<Rightarrow> nat" where
  "digit_val c = of_char c - 48"

definition isLeap :: "nat \<Rightarrow> bool" where
  "isLeap y = (y mod 4 = 0 \<and> (y mod 400 = 0 \<or> y mod 100 \<noteq> 0))"

definition daysIn :: "nat \<Rightarrow> nat \<Rightarrow> nat" where
  "daysIn m y =
     (if m = 2 then (if isLeap y then 29 else 28)
      else if m = 4 \<or> m = 6 \<or> m = 9 \<or> m = 11 then 30 else 31)"

text \<open>
  \<open>time.Parse("20060102", v)\<close> (Go 1.6 and later): a year of four digits, a month of two
  digits in 1..12, a day of two digits in 1..\<open>daysIn\<close>, and nothing after them.
  \<open>None\<close> stands for the error that \<open>time.Parse\<close> returns.
\<close>

definition time_Parse_20060102 :: "string \<Rightarrow> Time option" where
  "time_Parse_20060102 v =
     (case v of
        [y1, y2, y3, y4, m1, m2, d1, d2] \<Rightarrow>
          if list_all isDigit v then
            (let y = 1000 * digit_val y1 + 100 * digit_val y2 + 10 * digit_val y3 + digit_val y4;
                 m = 10 * digit_val m1 + digit_val m2;
                 d = 10 * digit_val d1 + digit_val d2
             in if m = 0 \<or> 12 < m then None
                else if d < 1 \<or> daysIn m y < d then None
                else Some \<lparr>year = y, month = m, day = d\<rparr>)
          else None
      | _ \<Rightarrow> None)"

subsection \<open>float64\<close>

text \<open>
  A float64 is a finite binary64 number, an infinity or a NaN. A finite number is kept
  as its exact rational value; the sign of zero is not kept: the program converts every
  float it computes to \<open>int64\<close> or prints a quotient \<open>d / 100\<close> of an integer, and
  neither sees that sign.
\<close>

datatype float64 = Finite rat | PosInf | NegInf | NaN

definition pow2 :: "int \<Rightarrow> rat" where
  "pow2 k = (if 0 \<le> k then 2 ^ nat k else 1 / 2 ^ nat (- k))"

text \<open>The number of bits of a positive integer: \<open>2^(bitlen n - 1) \<le> n < 2^bitlen n\<close>.\<close>

function bitlen :: "int \<Rightarrow> nat" where
  "bitlen n = (if n \<le> 0 then 0 else Suc (bitlen (n div 2)))"
  by pat_completeness auto
termination
  by (relation "measure nat") auto

declare bitlen.simps [simp del]

text \<open>For \<open>0 < a\<close>, the integer \<open>e\<close> with \<open>2^e \<le> a < 2^(e+1)\<close>.\<close>

definition floor_log2 :: "rat \<Rightarrow> int" where
  "floor_log2 a =
     (let n = fst (quotient_of a); d = snd (quotient_of a);
          k = int (bitlen n) - int (bitlen d)
      in if pow2 k \<le> a then k else k - 1)"

definition round_half_even :: "rat \<Rightarrow> int" where
  "round_half_even q =
     (let f = \<lfloor>q\<rfloor>; r = q - of_int f
      in if r < 1 / 2 then f
         else if 1 / 2 < r then f + 1
         else if even f then f else f + 1)"

text \<open>
  IEEE 754 rounding to nearest, ties to even, of an exact value to binary64: 53
  significant bits, the exponent at least \<open>-1022\<close> (below it the numbers are subnormal,
  spaced \<open>2^-1074\<close> apart), and an infinity when the rounded magnitude reaches \<open>2^1024\<close>.
\<close>

definition round64 :: "rat \<Rightarrow> float64" where
  "round64 q =
     (if q = 0 then Finite 0
      else
        let a = \<bar>q\<bar>;
            e = max (floor_log2 a) (- 1022);
            ulp = pow2 (e - 52);
            r = of_int (round_half_even (a / ulp)) * ulp
        in if pow2 1024 \<le> r then (if 0 < q then PosInf else NegInf)
           else Finite (if 0 < q then r else - r))"

text \<open>The product \<open>x * y\<close> of two float64.\<close>

fun f64_mul :: "float64 \<Rightarrow> float64 \<Rightarrow> float64" where
  "f64_mul (Finite a) (Finite b) = round64 (a * b)"
| "f64_mul NaN _ = NaN"
| "f64_mul _ NaN = NaN"
| "f64_mul (Finite a) PosInf = (if a = 0 then NaN else if 0 < a then PosInf else NegInf)"
| "f64_mul (Finite a) NegInf = (if a = 0 then NaN else if 0 < a then NegInf else PosInf)"
| "f64_mul PosInf (Finite b) = (if b = 0 then NaN else if 0 < b then PosInf else NegInf)"
| "f64_mul NegInf (Finite b) = (if b = 0 then NaN else if 0 < b then NegInf else PosInf)"
| "f64_mul PosInf PosInf = PosInf"
| "f64_mul PosInf NegInf = NegInf"
| "f64_mul NegInf PosInf = NegInf"
| "f64_mul NegInf NegInf = PosInf"

text \<open>
  The quotient \<open>x / c\<close> by a finite constant \<open>c \<noteq> 0\<close> (the program only divides by
  100).
\<close>

fun f64_div_const :: "float64 \<Rightarrow> rat \<Rightarrow> float64" where
  "f64_div_const (Finite a) c = round64 (a / c)"
| "f64_div_const PosInf c = (if 0 < c then PosInf else NegInf)"
| "f64_div_const NegInf c = (if 0 < c then NegInf else PosInf)"
| "f64_div_const NaN c = NaN"

subsection \<open>The Go implementation\<close>

text \<open>
  Two things the program relies on are not fixed by the code or by the Go specification,
  and are parameters of the model:
  \<^item> \<open>parseFloat_other\<close>: the value \<open>strconv.ParseFloat\<close> returns for a string that
    is neither a plain decimal number nor certainly malformed (exponents, hexadecimal
    floats, underscores, \<open>inf\<close> and \<open>nan\<close>: the accepted syntax has grown with the
    Go releases);
  \<^item> \<open>int64_unrepresentable\<close>: the value of the conversion \<open>int64(x)\<close> when \<open>x\<close> is
    a NaN, an infinity or outside the range of int64 (the language specification leaves
    it to the implementation).
\<close>

record go_impl =
  parseFloat_other :: "string \<Rightarrow> float64"
  int64_unrepresentable :: "float64 \<Rightarrow> 64 word"

subsection \<open>strconv.ParseFloat\<close>

text \<open>
  The digits of a plain decimal number: \<open>Some (n, k)\<close> when the string is digits with at
  most one point and at least one digit, \<open>n\<close> the number its digits spell and \<open>k\<close> the
  count of digits after the point.
\<close>

fun read_digits :: "string \<Rightarrow> int \<Rightarrow> nat \<Rightarrow> bool \<Rightarrow> bool \<Rightarrow> (int \<times> nat) option" where
  "read_digits [] n k sawdot sawdigits = (if sawdigits then Some (n, k) else None)"
| "read_digits (c # cs) n k sawdot sawdigits =
     (if c = CHR ''.'' then (if sawdot then None else read_digits cs n k True sawdigits)
      else if isDigit c then
        read_digits cs (10 * n + int (digit_val c)) (if sawdot then k + 1 else k) sawdot True
      else None)"

text \<open>An optional sign, then the digits: the exact value of the decimal number.\<close>

definition decimal_literal :: "string \<Rightarrow> rat option" where
  "decimal_literal s =
     (case s of
        [] \<Rightarrow> None
      | c # cs \<Rightarrow>
          (let neg = (c = CHR ''-''); ds = (if c = CHR ''+'' \<or> c = CHR ''-'' then cs else s)
           in case read_digits ds 0 0 False False of
                None \<Rightarrow> None
              | Some (n, k) \<Rightarrow>
                  Some ((if neg then - 1 else 1) * (of_int n / 10 ^ k))))"

text \<open>
  The bytes that occur in some number \<open>strconv.ParseFloat\<close> accepts in some release:
  digits and hexadecimal digits, signs, the point, the underscore, \<open>x\<close>, \<open>p\<close> and the
  letters of \<open>infinity\<close> and \<open>nan\<close>.
\<close>

definition float_chars :: string where
  "float_chars = ''0123456789abcdefABCDEF+-._xXpPiInNtTyY''"

text \<open>
  \<open>x, _ := strconv.ParseFloat(s, 64)\<close>: the float64 nearest to a plain decimal number;
  0 (with the error \<open>ErrSyntax\<close>, which the program drops) for the empty string and
  for a string with a byte that no number has; the implementation's value otherwise.
\<close>

definition ParseFloat :: "go_impl \<Rightarrow> string \<Rightarrow> float64" where
  "ParseFloat G s =
     (case decimal_literal s of
        Some q \<Rightarrow> round64 q
      | None \<Rightarrow>
          if s = [] \<or> list_ex (\<lambda>c. c \<notin> set float_chars) s then Finite 0
          else parseFloat_other G s)"

subsection \<open>Decimal\<close>

text \<open>\<open>type Decimal int64\<close>: hundredths, in a 64-bit signed integer.\<close>

type_synonym Decimal = "64 word"

text \<open>
  The conversion \<open>int64(x)\<close> of a float64 drops the fraction (it truncates towards
  zero).
\<close>

definition trunc_toward_zero :: "rat \<Rightarrow> int" where
  "trunc_toward_zero q = (if 0 \<le> q then \<lfloor>q\<rfloor> else \<lceil>q\<rceil>)"

definition int64_of_float64 :: "go_impl \<Rightarrow> float64 \<Rightarrow> 64 word" where
  "int64_of_float64 G x =
     (case x of
        Finite q \<Rightarrow>
          if - (2 ^ 63) \<le> trunc_toward_zero q \<and> trunc_toward_zero q < 2 ^ 63
          then word_of_int (trunc_toward_zero q)
          else int64_unrepresentable G x
      | _ \<Rightarrow> int64_unrepresentable G x)"

text \<open>The conversion \<open>float64(d)\<close> of an int64 rounds to the nearest float64.\<close>

definition float64_of_int64 :: "64 word \<Rightarrow> float64" where
  "float64_of_int64 d = round64 (of_int (sint d))"

text \<open>
  \<open>func NewDecial(s string) Decimal\<close>:
  \<^verbatim>\<open>x, _ := strconv.ParseFloat(s, 64); x = x * 100; return Decimal(int64(x))\<close>
\<close>

definition NewDecial :: "go_impl \<Rightarrow> string \<Rightarrow> Decimal" where
  "NewDecial G s = int64_of_float64 G (f64_mul (ParseFloat G s) (Finite 100))"

text \<open>The decimal digits of an integer \<open>0 \<le> n\<close>.\<close>

function digits_of :: "int \<Rightarrow> string" where
  "digits_of n =
     (if n < 10 then [char_of (48 + n)]
      else digits_of (n div 10) @ [char_of (48 + n mod 10)])"
  by pat_completeness auto
termination
  by (relation "measure nat") auto

declare digits_of.simps [simp del]

text \<open>
  \<open>fmt.Sprintf("%.2f", x)\<close>: the exact value of \<open>x\<close> rounded to two decimals (to
  nearest, ties to even), a minus sign for a negative \<open>x\<close>, the integer part, a point
  and two digits.
\<close>

definition Sprintf_2f :: "float64 \<Rightarrow> string" where
  "Sprintf_2f x =
     (case x of
        Finite q \<Rightarrow>
          (let c = round_half_even (\<bar>q\<bar> * 100)
           in (if q < 0 then ''-'' else '''') @ digits_of (c div 100) @ ''.'' @
              [char_of (48 + c mod 100 div 10), char_of (48 + c mod 10)])
      | PosInf \<Rightarrow> ''+Inf''
      | NegInf \<Rightarrow> ''-Inf''
      | NaN \<Rightarrow> ''NaN'')"

text \<open>
  \<open>func (d Decimal) String() string\<close>:
  \<^verbatim>\<open>x := float64(d); x = x / 100; return fmt.Sprintf("%.2f", x)\<close>
\<close>

definition Decimal_String :: "Decimal \<Rightarrow> string" where
  "Decimal_String d = Sprintf_2f (f64_div_const (float64_of_int64 d) 100)"

subsection \<open>The records\<close>

record OfxTransaction =
  FitID :: string
  Type :: string
  PostedDateTime :: Time
  UserDateTime :: Time
  Amount :: Decimal
  Memo :: string

text \<open>\<open>&OfxTransaction{}\<close>: every field at its zero value.\<close>

definition new_OfxTransaction :: OfxTransaction where
  "new_OfxTransaction =
     \<lparr>FitID = [], Type = [], PostedDateTime = zero_Time, UserDateTime = zero_Time,
      Amount = 0, Memo = []\<rparr>"

text \<open>
  \<open>Transactions\<close> is a slice of pointers \<open>[]*OfxTransaction\<close>, and a pointer may be
  nil: an entry is \<open>None\<close> (nil) or \<open>Some\<close> transaction. The parser sets its own pointer
  \<open>trans\<close> to nil in the statement that appends it, and a start tag allocates a new
  transaction, so no transaction in the list is written to afterwards: the entries are
  kept as values.
\<close>

record Ofx =
  GeneratedDateTime :: Time
  Language :: string
  AccountBankNumber :: string
  AccountNumber :: string
  AccountType :: string
  Currency :: string
  LedgerBalance :: Decimal
  AvailiableBalance :: Decimal
  TransactionStartDateTime :: Time
  TrnasactionEndDateTime :: Time
  Transactions :: "OfxTransaction option list"

text \<open>\<open>&Ofx{Transactions: []*OfxTransaction{}}\<close>\<close>

definition new_Ofx :: Ofx where
  "new_Ofx =
     \<lparr>GeneratedDateTime = zero_Time, Language = [], AccountBankNumber = [],
      AccountNumber = [], AccountType = [], Currency = [], LedgerBalance = 0,
      AvailiableBalance = 0, TransactionStartDateTime = zero_Time,
      TrnasactionEndDateTime = zero_Time, Transactions = []\<rparr>"

datatype nextKey =
    none | acctID | acctType | curDef | branchID | bankID | transAmount | transDatePosted
  | transUserDate | transFitID | transDesc | transMemo | transType | legerBal | AvailBal

subsection \<open>The tokens\<close>

text \<open>
  What \<open>dec.RawToken()\<close> returns with a nil error: a start element, an end element (each
  with \<open>Name.Local\<close>), character data (its bytes), or a comment, a processing
  instruction or a directive. The input of the model is the list of tokens the decoder
  delivers before its first error: the loop \<open>for err == nil\<close> ends at the first error,
  end of file or not (another error is only logged), and \<open>Parse\<close> returns the record.
\<close>

datatype token =
    StartElement string
  | EndElement string
  | CharData string
  | Comment string
  | ProcInst string string
  | Directive string

subsection \<open>Parse\<close>

text \<open>
  The local variables of \<open>Parse\<close>: the record \<open>ofx\<close>, the slice \<open>stack\<close> (made with
  1000 entries, never resized) and its fill level \<open>stackPos\<close>, the pending field
  \<open>next\<close> (here \<open>nextK\<close>) and the pointer \<open>trans\<close> (\<open>None\<close> is nil).
\<close>

record parser_state =
  ofx :: Ofx
  stack :: "string list"
  stackPos :: nat
  nextK :: nextKey
  trans :: "OfxTransaction option"

definition initial_state :: parser_state where
  "initial_state =
     \<lparr>ofx = new_Ofx, stack = replicate 1000 [], stackPos = 0, nextK = none, trans = None\<rparr>"

text \<open>
  \<open>case xml.StartElement\<close>, the \<open>switch t.Name.Local\<close>: a recognised name sets
  \<open>next\<close>, \<open>STMTTRN\<close> allocates a new transaction, any other name does nothing.
\<close>

definition switch_name :: "string \<Rightarrow> parser_state \<Rightarrow> parser_state" where
  "switch_name name s =
     (if name = ''ACCTID'' then s\<lparr>nextK := acctID\<rparr>
      else if name = ''BRANCHID'' then s\<lparr>nextK := branchID\<rparr>
      else if name = ''BANKID'' then s\<lparr>nextK := bankID\<rparr>
      else if name = ''ACCTTYPE'' then s\<lparr>nextK := acctType\<rparr>
      else if name = ''CURDEF'' then s\<lparr>nextK := curDef\<rparr>
      else if name = ''STMTTRN'' then s\<lparr>trans := Some new_OfxTransaction\<rparr>
      else if name = ''DTPOSTED'' then s\<lparr>nextK := transDatePosted\<rparr>
      else if name = ''FITID'' then s\<lparr>nextK := transFitID\<rparr>
      else if name = ''TRNAMT'' then s\<lparr>nextK := transAmount\<rparr>
      else if name = ''NAME'' then s\<lparr>nextK := transDesc\<rparr>
      else if name = ''MEMO'' then s\<lparr>nextK := transMemo\<rparr>
      else if name = ''TRNTYPE'' then s\<lparr>nextK := transType\<rparr>
      else if name = ''LEDGERBAL'' then s\<lparr>nextK := legerBal\<rparr>
      else if name = ''AVAILBAL'' then s\<lparr>nextK := AvailBal\<rparr>
      else s)"

text \<open>
  \<open>case xml.StartElement\<close>: \<open>stack[stackPos] = t.Name.Local; stackPos++\<close>, then the
  switch on the name. Go checks every index: at \<open>stackPos = len(stack)\<close> the assignment
  panics.
\<close>

definition start_element :: "parser_state \<Rightarrow> string \<Rightarrow> parser_state outcome" where
  "start_element s name =
     (if stackPos s < length (stack s) then
        Ok (switch_name name
              (s\<lparr>stack := (stack s)[stackPos s := name], stackPos := stackPos s + 1\<rparr>))
      else Panic IndexOutOfRange)"

text \<open>
  A store \<open>trans.Field = v\<close> through the pointer \<open>trans\<close>, followed by \<open>next = none\<close>:
  a nil pointer panics.
\<close>

definition store_trans ::
  "parser_state \<Rightarrow> (OfxTransaction \<Rightarrow> OfxTransaction) \<Rightarrow> parser_state outcome" where
  "store_trans s upd =
     (case trans s of
        None \<Rightarrow> Panic NilPointerDereference
      | Some tr \<Rightarrow> Ok (s\<lparr>trans := Some (upd tr), nextK := none\<rparr>))"

text \<open>A store \<open>ofx.Field = v\<close>, followed by \<open>next = none\<close>.\<close>

definition store_ofx :: "parser_state \<Rightarrow> (Ofx \<Rightarrow> Ofx) \<Rightarrow> parser_state outcome" where
  "store_ofx s upd = Ok (s\<lparr>ofx := upd (ofx s), nextK := none\<rparr>)"

text \<open>
  \<open>case xml.CharData\<close>: \<open>res := strings.TrimSpace(b.String())\<close>, the switch on \<open>next\<close>,
  then \<open>next = none\<close>. (\<open>bytes.Buffer.Write\<close> always returns a nil error, so the
  \<open>return nil, err\<close> after it is never taken.) The switch has no case for \<open>none\<close>,
  \<open>branchID\<close> (commented out) and \<open>transUserDate\<close>.
\<close>

definition char_data :: "go_impl \<Rightarrow> parser_state \<Rightarrow> string \<Rightarrow> parser_state outcome" where
  "char_data G s t =
     (let res = TrimSpace t in
      case nextK s of
        acctID \<Rightarrow> store_ofx s (\<lambda>x. x\<lparr>AccountNumber := res\<rparr>)
      | bankID \<Rightarrow> store_ofx s (\<lambda>x. x\<lparr>AccountBankNumber := res\<rparr>)
      | transDesc \<Rightarrow> store_trans s (\<lambda>tr. tr\<lparr>Memo := res\<rparr>)
      | transMemo \<Rightarrow> store_trans s (\<lambda>tr. tr\<lparr>Memo := res\<rparr>)
      | transFitID \<Rightarrow> store_trans s (\<lambda>tr. tr\<lparr>FitID := res\<rparr>)
      | curDef \<Rightarrow> store_ofx s (\<lambda>x. x\<lparr>Currency := res\<rparr>)
      | acctType \<Rightarrow> store_ofx s (\<lambda>x. x\<lparr>AccountType := res\<rparr>)
      | transDatePosted \<Rightarrow>
          if length res < 8 then Err (InvalidDatePosted res)
          else
            (case time_Parse_20060102 (take 8 res) of
               None \<Rightarrow> Err (TimeParseError (take 8 res))
             | Some d \<Rightarrow> store_trans s (\<lambda>tr. tr\<lparr>PostedDateTime := d\<rparr>))
      | transAmount \<Rightarrow> store_trans s (\<lambda>tr. tr\<lparr>Amount := NewDecial G res\<rparr>)
      | transType \<Rightarrow> store_trans s (\<lambda>tr. tr\<lparr>Type := res\<rparr>)
      | legerBal \<Rightarrow> store_ofx s (\<lambda>x. x\<lparr>LedgerBalance := NewDecial G res\<rparr>)
      | AvailBal \<Rightarrow> store_ofx s (\<lambda>x. x\<lparr>AvailiableBalance := NewDecial G res\<rparr>)
      | _ \<Rightarrow> Ok (s\<lparr>nextK := none\<rparr>))"

text \<open>
  \<open>case xml.EndElement\<close>, the loop \<open>for stackPos != 0\<close>. Its body begins with
  \<^verbatim>\<open>if stack[stackPos-1] == "STMTTRN" { ofx.Transactions = append(ofx.Transactions, trans); trans = nil }\<close>
  which appends the pointer \<open>trans\<close>, nil or not.
\<close>

definition flush_top :: "parser_state \<Rightarrow> parser_state" where
  "flush_top s =
     (if stack s ! (stackPos s - 1) = ''STMTTRN''
      then s\<lparr>ofx := (ofx s)\<lparr>Transactions := Transactions (ofx s) @ [trans s]\<rparr>, trans := None\<rparr>
      else s)"

text \<open>
  Then, when the top entry is the name of the end tag, the loop pops it and ends;
  otherwise it pops it and goes on. (The index \<open>stackPos-1\<close> is checked as every index
  is; \<open>stackPos\<close> never exceeds the length of the slice, see \<open>start_element\<close>.)
\<close>

function end_element :: "string \<Rightarrow> parser_state \<Rightarrow> parser_state outcome" where
  "end_element name s =
     (if stackPos s = 0 then Ok s
      else if length (stack s) \<le> stackPos s - 1 then Panic IndexOutOfRange
      else if stack s ! (stackPos s - 1) = name
        then Ok ((flush_top s)\<lparr>stackPos := stackPos s - 1\<rparr>)
        else end_element name ((flush_top s)\<lparr>stackPos := stackPos s - 1\<rparr>))"
  by pat_completeness auto
termination
  by (relation "measure (\<lambda>(name, s). stackPos s)") auto

declare end_element.simps [simp del]

text \<open>One pass of the loop body: the switch on the type of the token.\<close>

fun parse_token :: "go_impl \<Rightarrow> parser_state \<Rightarrow> token \<Rightarrow> parser_state outcome" where
  "parse_token G s (StartElement name) = start_element s name"
| "parse_token G s (CharData t) = char_data G s t"
| "parse_token G s (EndElement name) = end_element name s"
| "parse_token G s _ = Ok s"

text \<open>The loop over the tokens; an error or a panic ends it.\<close>

fun parse_loop :: "go_impl \<Rightarrow> parser_state \<Rightarrow> token list \<Rightarrow> parser_state outcome" where
  "parse_loop G s [] = Ok s"
| "parse_loop G s (tok # toks) =
     (case parse_token G s tok of
        Ok s' \<Rightarrow> parse_loop G s' toks
      | Err e \<Rightarrow> Err e
      | Panic p \<Rightarrow> Panic p)"

text \<open>\<open>func Parse(f io.Reader) (*Ofx, error)\<close>: \<open>return ofx, nil\<close> after the loop.\<close>

definition Parse :: "go_impl \<Rightarrow> token list \<Rightarrow> Ofx outcome" where
  "Parse G toks =
     (case parse_loop G initial_state toks of
        Ok s \<Rightarrow> Ok (ofx s)
      | Err e \<Rightarrow> Err e
      | Panic p \<Rightarrow> Panic p)"

section \<open>Notions used in the statements\<close>

text \<open>
  The open-element path: the entries of the slice below \<open>stackPos\<close>, the top entry
  first.
\<close>

definition open_path :: "parser_state \<Rightarrow> string list" where
  "open_path s = rev (take (stackPos s) (stack s))"

text \<open>
  The closing-tag resolution as the specification words it, on the path (top first), the
  current transaction and the transaction list: while the path is not empty, look at the
  top entry; if it is the transaction marker, append the current transaction to the list
  and clear the holder; pop the entry; stop if the popped entry is the name of the end
  tag.
\<close>

fun resolve_spec ::
  "string \<Rightarrow> string list \<Rightarrow> OfxTransaction option \<Rightarrow> OfxTransaction option list \<Rightarrow>
   string list \<times> OfxTransaction option \<times> OfxTransaction option list" where
  "resolve_spec name [] cur txs = ([], cur, txs)"
| "resolve_spec name (e # rest) cur txs =
     (let txs' = (if e = ''STMTTRN'' then txs @ [cur] else txs);
          cur' = (if e = ''STMTTRN'' then None else cur)
      in if e = name then (rest, cur', txs') else resolve_spec name rest cur' txs')"

text \<open>The four fields of the statement that no branch of \<open>Parse\<close> assigns.\<close>

definition untouched :: "parser_state \<Rightarrow> bool" where
  "untouched s =
     (GeneratedDateTime (ofx s) = zero_Time \<and> Language (ofx s) = [] \<and>
      TransactionStartDateTime (ofx s) = zero_Time \<and> TrnasactionEndDateTime (ofx s) = zero_Time)"

text \<open>The slice keeps its 1000 entries and \<open>stackPos\<close> stays within it.\<close>

definition stack_ok :: "parser_state \<Rightarrow> bool" where
  "stack_ok s = (length (stack s) = 1000 \<and> stackPos s \<le> 1000)"

text \<open>A token that is neither a start tag nor an end tag.\<close>

fun non_tag :: "token \<Rightarrow> bool" where
  "non_tag (StartElement name) = False"
| "non_tag (EndElement name) = False"
| "non_tag _ = True"


text \<open>
  The tokens of sibling fields inside a transaction block whose closing tags are omitted:
  start tags other than those of a transaction, of its id and of its posted date, and
  text.
\<close>

fun sibling_field :: "token \<Rightarrow> bool" where
  "sibling_field (StartElement name) =
     (name \<noteq> ''STMTTRN'' \<and> name \<noteq> ''FITID'' \<and> name \<noteq> ''DTPOSTED'')"
| "sibling_field (CharData t) = True"
| "sibling_field _ = False"

text \<open>No user date has been written: the holder and the list have zero user dates only.\<close>

fun user_date_zero :: "OfxTransaction option \<Rightarrow> bool" where
  "user_date_zero None = True"
| "user_date_zero (Some tr) = (UserDateTime tr = zero_Time)"

definition no_user_date :: "parser_state \<Rightarrow> bool" where
  "no_user_date s =
     (nextK s \<noteq> transUserDate \<and> user_date_zero (trans s) \<and>
      list_all user_date_zero (Transactions (ofx s)))"

text \<open>The date \<open>y\<close>, \<open>m\<close>, \<open>d\<close> written as the eight digits \<open>YYYYMMDD\<close>.\<close>


definition digit_char :: "nat \<Rightarrow> char" where
  "digit_char n = char_of (48 + n)"

definition yyyymmdd :: "nat \<Rightarrow> nat \<Rightarrow> nat \<Rightarrow> string" where
  "yyyymmdd y m d =
     [digit_char (y div 1000 mod 10), digit_char (y div 100 mod 10),
      digit_char (y div 10 mod 10), digit_char (y mod 10),
      digit_char (m div 10 mod 10), digit_char (m mod 10),
      digit_char (d div 10 mod 10), digit_char (d mod 10)]"




section \<open>Lemmas about the branches of the loop\<close>


lemma end_element_zero: "stackPos s = 0 \<Longrightarrow> end_element name s = Ok s"
  by (subst end_element.simps) simp

lemma end_element_range:
  "stackPos s \<noteq> 0 \<Longrightarrow> length (stack s) \<le> stackPos s - 1 \<Longrightarrow>
   end_element name s = Panic IndexOutOfRange"
  by (subst end_element.simps) simp

lemma end_element_match:
  "stackPos s \<noteq> 0 \<Longrightarrow> stackPos s - 1 < length (stack s) \<Longrightarrow>
   stack s ! (stackPos s - 1) = name \<Longrightarrow>
   end_element name s = Ok ((flush_top s)\<lparr>stackPos := stackPos s - 1\<rparr>)"
  by (subst end_element.simps) simp

lemma end_element_pop:
  "stackPos s \<noteq> 0 \<Longrightarrow> stackPos s - 1 < length (stack s) \<Longrightarrow>
   stack s ! (stackPos s - 1) \<noteq> name \<Longrightarrow>
   end_element name s = end_element name ((flush_top s)\<lparr>stackPos := stackPos s - 1\<rparr>)"
  by (subst end_element.simps) simp

lemma flush_top_frame:
  "(ofx (flush_top s))\<lparr>Transactions := []\<rparr> = (ofx s)\<lparr>Transactions := []\<rparr>"
  "stack (flush_top s) = stack s" "nextK (flush_top s) = nextK s"
  "stackPos (flush_top s) = stackPos s"
  by (simp_all add: flush_top_def)

lemma end_element_frame_aux:
  "stackPos s = n \<Longrightarrow> end_element name s = Ok s' \<Longrightarrow>
   (ofx s')\<lparr>Transactions := []\<rparr> = (ofx s)\<lparr>Transactions := []\<rparr> \<and> stack s' = stack s \<and>
   nextK s' = nextK s \<and> stackPos s' \<le> stackPos s"
proof (induction n arbitrary: s)
  case 0
  then show ?case by (simp add: end_element_zero)
next
  case (Suc n)
  let ?s2 = "(flush_top s)\<lparr>stackPos := stackPos s - 1\<rparr>"
  have pos: "stackPos s \<noteq> 0" using Suc.prems(1) by simp
  show ?case
  proof (cases "length (stack s) \<le> stackPos s - 1")
    case True
    with pos Suc.prems(2) show ?thesis by (simp add: end_element_range)
  next
    case False
    then have inr: "stackPos s - 1 < length (stack s)" by simp
    show ?thesis
    proof (cases "stack s ! (stackPos s - 1) = name")
      case True
      with pos inr Suc.prems(2) have "s' = ?s2" by (simp add: end_element_match)
      then show ?thesis by (simp add: flush_top_frame)
    next
      case False
      with pos inr Suc.prems(2) have "end_element name ?s2 = Ok s'"
        by (simp add: end_element_pop)
      moreover have "stackPos ?s2 = n" using Suc.prems(1) by simp
      ultimately have "(ofx s')\<lparr>Transactions := []\<rparr> = (ofx ?s2)\<lparr>Transactions := []\<rparr> \<and>
          stack s' = stack ?s2 \<and> nextK s' = nextK ?s2 \<and> stackPos s' \<le> stackPos ?s2"
        using Suc.IH by blast
      then show ?thesis by (auto simp: flush_top_frame)
    qed
  qed
qed

lemmas end_element_frame = end_element_frame_aux [OF refl]

lemma open_path_Suc:
  "stackPos s = Suc n \<Longrightarrow> Suc n \<le> length (stack s) \<Longrightarrow>
   open_path s = stack s ! n # rev (take n (stack s))"
  by (simp add: open_path_def take_Suc_conv_app_nth)

lemma end_element_resolve_aux:
  "stackPos s = n \<Longrightarrow> n \<le> length (stack s) \<Longrightarrow>
   end_element name s =
     (case resolve_spec name (open_path s) (trans s) (Transactions (ofx s)) of
        (path', cur', txs') \<Rightarrow>
          Ok (s\<lparr>ofx := (ofx s)\<lparr>Transactions := txs'\<rparr>, trans := cur', stackPos := length path'\<rparr>))"
proof (induction n arbitrary: s)
  case 0
  then show ?case by (simp add: end_element_zero open_path_def)
next
  case (Suc n)
  let ?s2 = "(flush_top s)\<lparr>stackPos := stackPos s - 1\<rparr>"
  have pos: "stackPos s \<noteq> 0" and inr: "stackPos s - 1 < length (stack s)"
    using Suc.prems by simp_all
  have path: "open_path s = stack s ! n # rev (take n (stack s))"
    using Suc.prems by (rule open_path_Suc)
  have n: "stackPos s - Suc 0 = n" using Suc.prems(1) by simp
  show ?case
  proof (cases "stack s ! n = name")
    case True
    then have "end_element name s = Ok ?s2"
      using pos inr n by (simp add: end_element_match)
    then show ?thesis
      using True n Suc.prems by (simp add: path flush_top_def Let_def)
  next
    case False
    then have "end_element name s = end_element name ?s2"
      using pos inr n by (simp add: end_element_pop)
    moreover have "stackPos ?s2 = n" "n \<le> length (stack ?s2)"
      using Suc.prems by (simp_all add: flush_top_frame)
    then have "end_element name ?s2 =
     (case resolve_spec name (open_path ?s2) (trans ?s2) (Transactions (ofx ?s2)) of
        (path', cur', txs') \<Rightarrow>
          Ok (?s2\<lparr>ofx := (ofx ?s2)\<lparr>Transactions := txs'\<rparr>, trans := cur', stackPos := length path'\<rparr>))"
      by (rule Suc.IH)
    moreover have "open_path ?s2 = rev (take n (stack s))"
      using n by (simp add: open_path_def flush_top_frame)
    ultimately show ?thesis
      using False by (simp add: path flush_top_def Let_def n split: prod.splits)
  qed
qed


lemma parse_loop_append:
  "parse_loop G s (xs @ ys) =
     (case parse_loop G s xs of Ok s' \<Rightarrow> parse_loop G s' ys | Err e \<Rightarrow> Err e | Panic p \<Rightarrow> Panic p)"
  by (induction xs arbitrary: s) (auto split: outcome.splits)

lemma switch_name_frame:
  "ofx (switch_name name s) = ofx s" "stack (switch_name name s) = stack s"
  "stackPos (switch_name name s) = stackPos s"
  "trans (switch_name name s) = (if name = ''STMTTRN'' then Some new_OfxTransaction else trans s)"
  by (simp_all add: switch_name_def)

lemma switch_name_nextK:
  "nextK (switch_name name s) \<noteq> transUserDate \<or> nextK (switch_name name s) = nextK s"
  "name \<noteq> ''DTPOSTED'' \<Longrightarrow>
     nextK (switch_name name s) \<noteq> transDatePosted \<or> nextK (switch_name name s) = nextK s"
  "name \<noteq> ''FITID'' \<Longrightarrow>
     nextK (switch_name name s) \<noteq> transFitID \<or> nextK (switch_name name s) = nextK s"
  by (simp_all add: switch_name_def)

lemma start_element_Ok:
  "stackPos s < length (stack s) \<Longrightarrow>
   start_element s name =
     Ok (switch_name name (s\<lparr>stack := (stack s)[stackPos s := name], stackPos := stackPos s + 1\<rparr>))"
  by (simp add: start_element_def)

lemma start_element_Panic:
  "length (stack s) \<le> stackPos s \<Longrightarrow> start_element s name = Panic IndexOutOfRange"
  by (simp add: start_element_def)

lemma start_element_effect:
  assumes "start_element s name = Ok s'"
  shows "stackPos s < length (stack s)" and "open_path s' = name # open_path s"
    and "ofx s' = ofx s" and "length (stack s') = length (stack s)"
    and "stackPos s' = Suc (stackPos s)"
    and "trans s' = (if name = ''STMTTRN'' then Some new_OfxTransaction else trans s)"
proof -
  show lt: "stackPos s < length (stack s)"
    using assms by (simp add: start_element_def split: if_splits)
  then have s': "s' = switch_name name (s\<lparr>stack := (stack s)[stackPos s := name], stackPos := stackPos s + 1\<rparr>)"
    using assms by (simp add: start_element_Ok)
  show "stackPos s' = Suc (stackPos s)" by (simp add: s' switch_name_frame)
  show "open_path s' = name # open_path s"
    using lt by (simp add: open_path_def s' switch_name_frame take_Suc_conv_app_nth)
  show "ofx s' = ofx s" "length (stack s') = length (stack s)"
    "trans s' = (if name = ''STMTTRN'' then Some new_OfxTransaction else trans s)"
    by (simp_all add: s' switch_name_frame)
qed

lemma start_element_nextK:
  assumes "start_element s name = Ok s'"
  shows "nextK s' \<noteq> transUserDate \<or> nextK s' = nextK s"
    and "name \<noteq> ''DTPOSTED'' \<Longrightarrow> nextK s' \<noteq> transDatePosted \<or> nextK s' = nextK s"
    and "name \<noteq> ''FITID'' \<Longrightarrow> nextK s' \<noteq> transFitID \<or> nextK s' = nextK s"
proof -
  have lt: "stackPos s < length (stack s)"
    using assms by (simp add: start_element_def split: if_splits)
  then have s': "s' = switch_name name (s\<lparr>stack := (stack s)[stackPos s := name], stackPos := stackPos s + 1\<rparr>)"
    using assms by (simp add: start_element_Ok)
  show "nextK s' \<noteq> transUserDate \<or> nextK s' = nextK s"
    using switch_name_nextK(1)[of name "s\<lparr>stack := (stack s)[stackPos s := name], stackPos := stackPos s + 1\<rparr>"]
    by (simp add: s')
  show "name \<noteq> ''DTPOSTED'' \<Longrightarrow> nextK s' \<noteq> transDatePosted \<or> nextK s' = nextK s"
    using switch_name_nextK(2)[of name "s\<lparr>stack := (stack s)[stackPos s := name], stackPos := stackPos s + 1\<rparr>"]
    by (simp add: s')
  show "name \<noteq> ''FITID'' \<Longrightarrow> nextK s' \<noteq> transFitID \<or> nextK s' = nextK s"
    using switch_name_nextK(3)[of name "s\<lparr>stack := (stack s)[stackPos s := name], stackPos := stackPos s + 1\<rparr>"]
    by (simp add: s')
qed


lemma char_data_frame:
  assumes "char_data G s t = Ok s'"
  shows "stack s' = stack s" and "stackPos s' = stackPos s" and "nextK s' = none"
    and "Transactions (ofx s') = Transactions (ofx s)"
    and "GeneratedDateTime (ofx s') = GeneratedDateTime (ofx s)"
    and "Language (ofx s') = Language (ofx s)"
    and "TransactionStartDateTime (ofx s') = TransactionStartDateTime (ofx s)"
    and "TrnasactionEndDateTime (ofx s') = TrnasactionEndDateTime (ofx s)"
    and "(trans s' = None) = (trans s = None)"
  using assms
  by (cases "nextK s";
      auto simp: char_data_def store_trans_def store_ofx_def Let_def
           split: option.splits if_splits)+

lemma char_data_trans:
  assumes "char_data G s t = Ok s'" and "trans s = Some tr"
  shows "\<exists>tr'. trans s' = Some tr' \<and> UserDateTime tr' = UserDateTime tr \<and>
           (nextK s \<noteq> transFitID \<longrightarrow> FitID tr' = FitID tr)"
  using assms
  by (cases "nextK s";
      auto simp: char_data_def store_trans_def store_ofx_def Let_def
           split: option.splits if_splits)

lemma char_data_FitID:
  "trans s = Some tr \<Longrightarrow> nextK s = transFitID \<Longrightarrow>
   char_data G s t = Ok (s\<lparr>trans := Some (tr\<lparr>FitID := TrimSpace t\<rparr>), nextK := none\<rparr>)"
  by (simp add: char_data_def store_trans_def)

lemma char_data_total:
  "trans s \<noteq> None \<Longrightarrow> nextK s \<noteq> transDatePosted \<Longrightarrow> \<exists>s'. char_data G s t = Ok s'"
  by (cases "nextK s";
      auto simp: char_data_def store_trans_def store_ofx_def Let_def
           split: option.splits if_splits)

lemma char_data_none: "nextK s = none \<Longrightarrow> char_data G s t = Ok s"
  by (simp add: char_data_def)



lemma parse_loop_invariant:
  assumes step: "\<And>s tok s'. I s \<Longrightarrow> parse_token G s tok = Ok s' \<Longrightarrow> I s'"
    and "I s" and "parse_loop G s toks = Ok s'"
  shows "I s'"
  using assms(2,3)
proof (induction toks arbitrary: s)
  case Nil
  then show ?case by simp
next
  case (Cons tok toks)
  from Cons.prems(2) obtain s1 where s1: "parse_token G s tok = Ok s1"
    and rest: "parse_loop G s1 toks = Ok s'"
    by (auto split: outcome.splits)
  from step[OF Cons.prems(1) s1] rest show ?case by (rule Cons.IH)
qed

lemma end_element_trans_aux:
  "stackPos s = n \<Longrightarrow> end_element name s = Ok s' \<Longrightarrow>
   set (Transactions (ofx s')) \<subseteq> set (Transactions (ofx s)) \<union> {trans s, None} \<and>
   (trans s' = trans s \<or> trans s' = None)"
proof (induction n arbitrary: s)
  case 0
  then show ?case by (auto simp: end_element_zero)
next
  case (Suc n)
  let ?s2 = "(flush_top s)\<lparr>stackPos := stackPos s - 1\<rparr>"
  have pos: "stackPos s \<noteq> 0" using Suc.prems(1) by simp
  have fl: "set (Transactions (ofx ?s2)) \<subseteq> set (Transactions (ofx s)) \<union> {trans s, None}"
    "trans ?s2 = trans s \<or> trans ?s2 = None"
    by (auto simp: flush_top_def)
  show ?case
  proof (cases "length (stack s) \<le> stackPos s - 1")
    case True
    with pos Suc.prems(2) show ?thesis by (simp add: end_element_range)
  next
    case False
    then have inr: "stackPos s - 1 < length (stack s)" by simp
    show ?thesis
    proof (cases "stack s ! (stackPos s - 1) = name")
      case True
      with pos inr Suc.prems(2) have "s' = ?s2" by (simp add: end_element_match)
      with fl show ?thesis by simp
    next
      case False
      with pos inr Suc.prems(2) have rec: "end_element name ?s2 = Ok s'"
        by (simp add: end_element_pop)
      have sp: "stackPos ?s2 = n" using Suc.prems(1) by simp
      from Suc.IH[OF sp rec] fl show ?thesis by auto
    qed
  qed
qed

lemmas end_element_trans = end_element_trans_aux [OF refl]

lemma untouched_step:
  assumes "untouched s" and "parse_token G s tok = Ok s'"
  shows "untouched s'"
proof (cases tok)
  case (StartElement name)
  with assms show ?thesis by (simp add: untouched_def start_element_effect(3))
next
  case (EndElement name)
  with assms(2) have "(ofx s')\<lparr>Transactions := []\<rparr> = (ofx s)\<lparr>Transactions := []\<rparr>"
    by (simp add: end_element_frame)
  then have "GeneratedDateTime (ofx s') = GeneratedDateTime (ofx s) \<and>
      Language (ofx s') = Language (ofx s) \<and>
      TransactionStartDateTime (ofx s') = TransactionStartDateTime (ofx s) \<and>
      TrnasactionEndDateTime (ofx s') = TrnasactionEndDateTime (ofx s)"
    by (metis Ofx.select_convs(1,2,9,10) Ofx.surjective Ofx.update_convs(11))
  with assms(1) show ?thesis by (simp add: untouched_def)
next
  case (CharData t)
  with assms show ?thesis by (simp add: untouched_def char_data_frame)
qed (use assms in auto)

lemma stack_ok_step:
  assumes "stack_ok s" and "parse_token G s tok = Ok s'"
  shows "stack_ok s'"
proof (cases tok)
  case (StartElement name)
  with assms(2) have "start_element s name = Ok s'" by simp
  from start_element_effect(1,4,5)[OF this] assms(1) show ?thesis
    by (simp add: stack_ok_def)
next
  case (EndElement name)
  with assms(2) have "stack s' = stack s \<and> stackPos s' \<le> stackPos s"
    by (simp add: end_element_frame)
  with assms(1) show ?thesis by (simp add: stack_ok_def)
next
  case (CharData t)
  with assms show ?thesis by (simp add: stack_ok_def char_data_frame)
qed (use assms in auto)

lemma stack_ok_initial: "stack_ok initial_state"
  by (simp add: stack_ok_def initial_state_def)

lemma stack_ok_loop: "parse_loop G initial_state toks = Ok s \<Longrightarrow> stack_ok s"
  using parse_loop_invariant[where I = stack_ok] stack_ok_step stack_ok_initial by blast

lemma parse_loop_starts:
  "stackPos s + n \<le> length (stack s) \<Longrightarrow>
   \<exists>s'. parse_loop G s (replicate n (StartElement name)) = Ok s' \<and>
        stackPos s' = stackPos s + n \<and> length (stack s') = length (stack s)"
proof (induction n arbitrary: s)
  case 0
  then show ?case by simp
next
  case (Suc n)
  then have lt: "stackPos s < length (stack s)" by simp
  let ?s1 = "switch_name name (s\<lparr>stack := (stack s)[stackPos s := name], stackPos := stackPos s + 1\<rparr>)"
  have s1: "start_element s name = Ok ?s1" using lt by (rule start_element_Ok)
  have "stackPos ?s1 + n \<le> length (stack ?s1)"
    using Suc.prems by (simp add: switch_name_frame)
  from Suc.IH[OF this] obtain s' where "parse_loop G ?s1 (replicate n (StartElement name)) = Ok s'"
    "stackPos s' = stackPos ?s1 + n" "length (stack s') = length (stack ?s1)"
    by blast
  then show ?case using s1 by (simp add: switch_name_frame)
qed


section \<open>Fields of a transaction stored without an open transaction\<close>

lemma TrimSpace_date: "TrimSpace ''20230115'' = ''20230115''"
  by code_simp

lemma time_Parse_date:
  "time_Parse_20060102 ''20230115'' = Some \<lparr>year = 2023, month = 1, day = 15\<rparr>"
  by code_simp

text \<open>
  Claim C9. Some token streams make \<open>Parse\<close> dereference a nil \<open>trans\<close>: the text of
  a transaction field (\<open>FITID\<close>, \<open>NAME\<close>, \<open>MEMO\<close>, \<open>TRNAMT\<close>, \<open>TRNTYPE\<close>, or
  \<open>DTPOSTED\<close> with a well-formed date) that arrives while no transaction is open, be it
  before any \<open>STMTTRN\<close> start tag or after an end tag has flushed the transaction. The
  store panics; \<open>Parse\<close> neither returns an error nor skips the text.
\<close>

theorem C9_store_without_transaction_panics:
  "char_data G (s\<lparr>nextK := transFitID, trans := None\<rparr>) t = Panic NilPointerDereference \<and>
   char_data G (s\<lparr>nextK := transDesc, trans := None\<rparr>) t = Panic NilPointerDereference \<and>
   char_data G (s\<lparr>nextK := transMemo, trans := None\<rparr>) t = Panic NilPointerDereference \<and>
   char_data G (s\<lparr>nextK := transAmount, trans := None\<rparr>) t = Panic NilPointerDereference \<and>
   char_data G (s\<lparr>nextK := transType, trans := None\<rparr>) t = Panic NilPointerDereference \<and>
   char_data G (s\<lparr>nextK := transDatePosted, trans := None\<rparr>) ''20230115'' =
     Panic NilPointerDereference \<and>
   Parse G [StartElement ''FITID'', CharData t] = Panic NilPointerDereference \<and>
   Parse G [StartElement ''STMTTRN'', EndElement ''STMTTRN'', StartElement ''MEMO'', CharData t] =
     Panic NilPointerDereference"
proof -
  have fields:
    "char_data G (s\<lparr>nextK := transFitID, trans := None\<rparr>) t = Panic NilPointerDereference"
    "char_data G (s\<lparr>nextK := transDesc, trans := None\<rparr>) t = Panic NilPointerDereference"
    "char_data G (s\<lparr>nextK := transMemo, trans := None\<rparr>) t = Panic NilPointerDereference"
    "char_data G (s\<lparr>nextK := transAmount, trans := None\<rparr>) t = Panic NilPointerDereference"
    "char_data G (s\<lparr>nextK := transType, trans := None\<rparr>) t = Panic NilPointerDereference"
    by (simp_all add: char_data_def store_trans_def)
  have date:
    "char_data G (s\<lparr>nextK := transDatePosted, trans := None\<rparr>) ''20230115'' =
       Panic NilPointerDereference"
    by (simp add: char_data_def store_trans_def TrimSpace_date time_Parse_date)
  have before:
    "Parse G [StartElement ''FITID'', CharData t] = Panic NilPointerDereference"
    by (simp add: Parse_def initial_state_def start_element_def switch_name_def char_data_def
        store_trans_def)
  have after:
    "Parse G [StartElement ''STMTTRN'', EndElement ''STMTTRN'', StartElement ''MEMO'', CharData t] =
       Panic NilPointerDereference"
    by (simp add: Parse_def initial_state_def start_element_def switch_name_def char_data_def
        store_trans_def end_element_match flush_top_def)
  from fields date before after show ?thesis by simp
qed

section \<open>Only the first text chunk is stored\<close>

lemma non_tag_loop:
  "nextK s = none \<Longrightarrow> list_all non_tag mid \<Longrightarrow> parse_loop G s mid = Ok s"
proof (induction mid)
  case Nil
  then show ?case by simp
next
  case (Cons tok mid)
  then have "parse_token G s tok = Ok s"
    by (cases tok) (simp_all add: char_data_none)
  with Cons show ?case by simp
qed

lemma TrimSpace_acct: "TrimSpace ''12345 '' = ''12345''"
  by code_simp

text \<open>
  Claim C6. A character-data event leaves the pending field at \<open>none\<close>; the tokens that
  follow it up to the next start or end tag (more character data, comments) then change
  nothing at all in the state, so a field holds the first text chunk after the start tag
  that armed it.
\<close>

theorem C6_first_text_chunk_only:
  "parse_token G s (CharData t) = Ok s' \<Longrightarrow> list_all non_tag mid \<Longrightarrow>
   nextK s' = none \<and> parse_loop G s' mid = Ok s'"
proof -
  assume ok: "parse_token G s (CharData t) = Ok s'" and mid: "list_all non_tag mid"
  from ok have "nextK s' = none" by (simp add: char_data_frame(3))
  with mid show ?thesis by (simp add: non_tag_loop)
qed

theorem C6_first_text_chunk_only_witness:
  "\<forall>G. parse_token G (initial_state\<lparr>nextK := acctID\<rparr>) (CharData ''12345 '') =
          Ok (initial_state\<lparr>ofx := new_Ofx\<lparr>AccountNumber := ''12345''\<rparr>\<rparr>) \<and>
        list_all non_tag [CharData ''678'', Comment ''c'', CharData ''9''] \<and>
        nextK (initial_state\<lparr>ofx := new_Ofx\<lparr>AccountNumber := ''12345''\<rparr>\<rparr>) = none \<and>
        parse_loop G (initial_state\<lparr>ofx := new_Ofx\<lparr>AccountNumber := ''12345''\<rparr>\<rparr>)
          [CharData ''678'', Comment ''c'', CharData ''9''] =
          Ok (initial_state\<lparr>ofx := new_Ofx\<lparr>AccountNumber := ''12345''\<rparr>\<rparr>)"
proof
  fix G
  let ?s' = "initial_state\<lparr>ofx := new_Ofx\<lparr>AccountNumber := ''12345''\<rparr>\<rparr>"
  let ?mid = "[CharData ''678'', Comment ''c'', CharData ''9'']"
  have first: "parse_token G (initial_state\<lparr>nextK := acctID\<rparr>) (CharData ''12345 '') = Ok ?s'"
    by (simp add: char_data_def store_ofx_def TrimSpace_acct initial_state_def)
  have mid: "list_all non_tag ?mid" by simp
  from C6_first_text_chunk_only[OF first mid] first mid
  show "parse_token G (initial_state\<lparr>nextK := acctID\<rparr>) (CharData ''12345 '') = Ok ?s' \<and>
        list_all non_tag ?mid \<and> nextK ?s' = none \<and> parse_loop G ?s' ?mid = Ok ?s'"
    by simp
qed

section \<open>The capacity of the path stack\<close>

text \<open>
  Claim C7 as stated would have \<open>Parse\<close> check the capacity itself and fail with an
  error of its own. It has no such check: the 1001st nested start tag indexes the slice
  out of range and the run time panics.
\<close>

theorem C7_counterexample:
  "\<forall>G. Parse G (replicate 1001 (StartElement ''OFX'')) = Panic IndexOutOfRange"
proof
  fix G
  have "stackPos initial_state + 1000 \<le> length (stack initial_state)"
    by (simp add: initial_state_def)
  from parse_loop_starts[OF this, of G "''OFX''"] obtain s'
    where run: "parse_loop G initial_state (replicate 1000 (StartElement ''OFX'')) = Ok s'"
      and sp: "stackPos s' = 1000" and len: "length (stack s') = 1000"
    by (auto simp: initial_state_def)
  have "replicate 1001 (StartElement ''OFX'') = replicate (1000 + 1) (StartElement ''OFX'')"
    by simp
  also have "\<dots> = replicate 1000 (StartElement ''OFX'') @ replicate 1 (StartElement ''OFX'')"
    by (rule replicate_add)
  finally have "replicate 1001 (StartElement ''OFX'') =
      replicate 1000 (StartElement ''OFX'') @ [StartElement ''OFX'']"
    by simp
  then have "parse_loop G initial_state (replicate 1001 (StartElement ''OFX'')) = Panic IndexOutOfRange"
    using run sp len by (simp add: parse_loop_append start_element_Panic)
  then show "Parse G (replicate 1001 (StartElement ''OFX'')) = Panic IndexOutOfRange"
    by (simp add: Parse_def)
qed

text \<open>
  Claim C7, amended. The slice has 1000 entries throughout and \<open>stackPos\<close> never
  exceeds 1000. A start tag below that level is pushed; at that level the assignment
  \<open>stack[stackPos]\<close> is out of range and panics: nothing is written outside the slice,
  and \<open>Parse\<close> returns neither a record nor an error.
\<close>

theorem C7_capacity:
  "parse_loop G initial_state toks = Ok s \<Longrightarrow>
   length (stack s) = 1000 \<and> stackPos s \<le> 1000 \<and>
   (if stackPos s < 1000
    then parse_token G s (StartElement name) =
           Ok (switch_name name (s\<lparr>stack := (stack s)[stackPos s := name], stackPos := stackPos s + 1\<rparr>))
    else parse_token G s (StartElement name) = Panic IndexOutOfRange)"
proof -
  assume "parse_loop G initial_state toks = Ok s"
  then have "stack_ok s" by (rule stack_ok_loop)
  then show ?thesis
    by (simp add: stack_ok_def start_element_Ok start_element_Panic)
qed

theorem C7_capacity_witness:
  "\<forall>G. parse_loop G initial_state [StartElement ''OFX'', EndElement ''OFX''] = Ok (initial_state\<lparr>stack := (stack initial_state)[0 := ''OFX'']\<rparr>)
     \<and> parse_token G (initial_state\<lparr>stack := (stack initial_state)[0 := ''OFX'']\<rparr>) (StartElement ''STMTTRN'') =
        Ok (initial_state\<lparr>stack := (stack initial_state)[0 := ''STMTTRN''], stackPos := 1, trans := Some new_OfxTransaction\<rparr>)"
proof
  fix G
  let ?s = "initial_state\<lparr>stack := (stack initial_state)[0 := ''OFX'']\<rparr>"
  have run: "parse_loop G initial_state [StartElement ''OFX'', EndElement ''OFX''] = Ok ?s"
    by (simp add: initial_state_def start_element_def switch_name_def end_element_match flush_top_def)
  from C7_capacity[OF run, of "''STMTTRN''"] run
  show "parse_loop G initial_state [StartElement ''OFX'', EndElement ''OFX''] = Ok ?s \<and>
     parse_token G ?s (StartElement ''STMTTRN'') =
        Ok (initial_state\<lparr>stack := (stack initial_state)[0 := ''STMTTRN''], stackPos := 1, trans := Some new_OfxTransaction\<rparr>)"
    by (simp add: initial_state_def switch_name_def)
qed

section \<open>Fields of the statement that are never assigned\<close>

lemma TrimSpace_12345: "TrimSpace ''12345'' = ''12345''"
  by code_simp

text \<open>
  Claim C10. Whatever the tokens, the record that \<open>Parse\<close> returns has the generation
  time stamp, the language and the start and end of the statement period at their zero
  values: no start tag arms them and no branch of the character-data switch writes them.
\<close>

theorem C10_unassigned_fields:
  "Parse G toks = Ok r \<Longrightarrow>
   GeneratedDateTime r = zero_Time \<and> Language r = [] \<and>
   TransactionStartDateTime r = zero_Time \<and> TrnasactionEndDateTime r = zero_Time"
proof -
  assume "Parse G toks = Ok r"
  then obtain s where s: "parse_loop G initial_state toks = Ok s" and r: "r = ofx s"
    by (auto simp: Parse_def split: outcome.splits)
  have "untouched initial_state"
    by (simp add: untouched_def initial_state_def new_Ofx_def)
  with s have "untouched s"
    using parse_loop_invariant[where I = untouched] untouched_step by blast
  then show ?thesis by (simp add: untouched_def r)
qed

theorem C10_unassigned_fields_witness:
  "\<forall>G. Parse G [StartElement ''OFX'', StartElement ''ACCTID'', CharData ''12345'',
                  EndElement ''OFX''] =
          Ok (new_Ofx\<lparr>AccountNumber := ''12345''\<rparr>) \<and>
        GeneratedDateTime (new_Ofx\<lparr>AccountNumber := ''12345''\<rparr>) = zero_Time \<and>
        Language (new_Ofx\<lparr>AccountNumber := ''12345''\<rparr>) = [] \<and>
        TransactionStartDateTime (new_Ofx\<lparr>AccountNumber := ''12345''\<rparr>) = zero_Time \<and>
        TrnasactionEndDateTime (new_Ofx\<lparr>AccountNumber := ''12345''\<rparr>) = zero_Time"
proof
  fix G
  let ?toks = "[StartElement ''OFX'', StartElement ''ACCTID'', CharData ''12345'', EndElement ''OFX'']"
  let ?r = "new_Ofx\<lparr>AccountNumber := ''12345''\<rparr>"
  have run: "Parse G ?toks = Ok ?r"
    by (simp add: Parse_def initial_state_def start_element_def switch_name_def char_data_def
        store_ofx_def TrimSpace_12345 end_element_match end_element_pop flush_top_def)
  from C10_unassigned_fields[OF run] run
  show "Parse G ?toks = Ok ?r \<and> GeneratedDateTime ?r = zero_Time \<and> Language ?r = [] \<and>
        TransactionStartDateTime ?r = zero_Time \<and> TrnasactionEndDateTime ?r = zero_Time"
    by simp
qed

section \<open>The user date\<close>

lemma no_user_date_step:
  assumes "no_user_date s" and "parse_token G s tok = Ok s'"
  shows "no_user_date s'"
proof (cases tok)
  case (StartElement name)
  with assms(2) have st: "start_element s name = Ok s'" by simp
  have "user_date_zero (trans s')"
    using start_element_effect(6)[OF st] assms(1)
    by (simp add: no_user_date_def new_OfxTransaction_def)
  moreover have "nextK s' \<noteq> transUserDate"
    using start_element_nextK(1)[OF st] assms(1) by (auto simp: no_user_date_def)
  ultimately show ?thesis
    using start_element_effect(3)[OF st] assms(1) by (simp add: no_user_date_def)
next
  case (EndElement name)
  with assms(2) have en: "end_element name s = Ok s'" by simp
  from end_element_trans[OF en]
  have sub: "set (Transactions (ofx s')) \<subseteq> set (Transactions (ofx s)) \<union> {trans s, None}"
    and tr: "trans s' = trans s \<or> trans s' = None"
    by simp_all
  have "user_date_zero (trans s')" using tr assms(1) by (auto simp: no_user_date_def)
  moreover have "list_all user_date_zero (Transactions (ofx s'))"
    using sub assms(1) by (auto simp: no_user_date_def list_all_iff)
  moreover have "nextK s' \<noteq> transUserDate"
    using end_element_frame[OF en] assms(1) by (simp add: no_user_date_def)
  ultimately show ?thesis by (simp add: no_user_date_def)
next
  case (CharData t)
  with assms(2) have cd: "char_data G s t = Ok s'" by simp
  have "user_date_zero (trans s')"
  proof (cases "trans s")
    case None
    then show ?thesis using char_data_frame(9)[OF cd] by simp
  next
    case (Some tr)
    from char_data_trans[OF cd Some] Some assms(1) show ?thesis
      by (auto simp: no_user_date_def)
  qed
  then show ?thesis
    using char_data_frame(3,4)[OF cd] assms(1) by (simp add: no_user_date_def)
qed (use assms in auto)

text \<open>
  Claim C8 as stated fails: the switch on the tag name has no case for a user-date tag
  (\<open>DTUSER\<close> in OFX), so the tag leaves \<open>next\<close> as it was, and the text after it
  is dropped: the transaction keeps the zero user date.
\<close>

theorem C8_counterexample:
  "\<forall>G. Parse G [StartElement ''STMTTRN'', StartElement ''DTUSER'', CharData ''20230115'',
                  EndElement ''STMTTRN''] =
          Ok (new_Ofx\<lparr>Transactions := [Some new_OfxTransaction]\<rparr>) \<and>
        UserDateTime new_OfxTransaction = zero_Time"
  by (simp add: Parse_def initial_state_def start_element_def switch_name_def char_data_def
      end_element_match end_element_pop flush_top_def new_OfxTransaction_def new_Ofx_def)

text \<open>
  Claim C8, amended. No start tag sets the pending field to \<open>transUserDate\<close> and no
  character-data event writes \<open>UserDateTime\<close>: after any tokens the pending field is
  not \<open>transUserDate\<close>, a start tag of any name leaves it so, and the user date of the
  current transaction and of every transaction in the list is the zero time.
\<close>

theorem C8_user_date_never_set:
  "parse_loop G initial_state toks = Ok s \<Longrightarrow>
   nextK s \<noteq> transUserDate \<and> user_date_zero (trans s) \<and>
   list_all user_date_zero (Transactions (ofx s)) \<and>
   nextK (switch_name name s) \<noteq> transUserDate"
proof -
  assume run: "parse_loop G initial_state toks = Ok s"
  have "no_user_date initial_state"
    by (simp add: no_user_date_def initial_state_def new_Ofx_def)
  with run have "no_user_date s"
    using parse_loop_invariant[where I = no_user_date] no_user_date_step by blast
  then show ?thesis
    using switch_name_nextK(1)[of name s] by (auto simp: no_user_date_def)
qed

theorem C8_user_date_never_set_witness:
  "\<forall>G. parse_loop G initial_state [StartElement ''STMTTRN'', EndElement ''STMTTRN''] =
          Ok (initial_state\<lparr>ofx := new_Ofx\<lparr>Transactions := [Some new_OfxTransaction]\<rparr>,
                stack := (stack initial_state)[0 := ''STMTTRN'']\<rparr>) \<and>
        list_all user_date_zero [Some new_OfxTransaction] \<and>
        nextK (switch_name ''DTUSER''
          (initial_state\<lparr>ofx := new_Ofx\<lparr>Transactions := [Some new_OfxTransaction]\<rparr>,
                stack := (stack initial_state)[0 := ''STMTTRN'']\<rparr>)) \<noteq> transUserDate"
proof
  fix G
  let ?s = "initial_state\<lparr>ofx := new_Ofx\<lparr>Transactions := [Some new_OfxTransaction]\<rparr>,
                stack := (stack initial_state)[0 := ''STMTTRN'']\<rparr>"
  have run: "parse_loop G initial_state [StartElement ''STMTTRN'', EndElement ''STMTTRN''] = Ok ?s"
    by (simp add: initial_state_def start_element_def switch_name_def end_element_match
        flush_top_def new_Ofx_def)
  from C8_user_date_never_set[OF run, of "''DTUSER''"] run
  show "parse_loop G initial_state [StartElement ''STMTTRN'', EndElement ''STMTTRN''] = Ok ?s \<and>
        list_all user_date_zero [Some new_OfxTransaction] \<and>
        nextK (switch_name ''DTUSER'' ?s) \<noteq> transUserDate"
    by (simp add: initial_state_def)
qed

section \<open>A transaction still open at the end of the stream\<close>






section \<open>The closing-tag resolution\<close>

lemma TrimSpace_1001: "TrimSpace '' 1001 '' = ''1001''"
  by code_simp



lemma resolve_spec_path:
  "fst (resolve_spec name p cur txs) = tl (dropWhile (\<lambda>e. e \<noteq> name) p)"
  by (induction p arbitrary: cur txs) (simp_all add: Let_def)

lemma resolve_spec_skip:
  "''STMTTRN'' \<notin> set xs \<Longrightarrow>
   resolve_spec ''STMTTRN'' (xs @ ''STMTTRN'' # rest) cur txs = (rest, None, txs @ [cur])"
  by (induction xs arbitrary: cur txs) (auto simp: Let_def)

lemma open_path_suffix:
  assumes "open_path s = ys @ p"
  shows "open_path (s\<lparr>ofx := x, trans := c, stackPos := length p\<rparr>) = p"
proof -
  have "take (stackPos s) (stack s) = rev p @ rev ys"
    using assms by (metis open_path_def rev_append rev_rev_ident)
  then have "take (length p) (take (stackPos s) (stack s)) = rev p" by simp
  moreover have "length p \<le> stackPos s"
    using assms by (metis open_path_def length_append length_rev length_take le_add2 min.cobounded2 order_trans)
  ultimately have "take (length p) (stack s) = rev p" by (simp add: min_def)
  then show ?thesis by (simp add: open_path_def)
qed

lemma dropWhile_tl_suffix: "\<exists>ys. p = ys @ tl (dropWhile P p)"
  by (metis append.assoc append_Nil2 hd_Cons_tl takeWhile_dropWhile_id tl_Nil append_Cons append_Nil)

lemma end_element_spec:
  assumes "stackPos s \<le> length (stack s)"
  shows "\<exists>s'. parse_token G s (EndElement name) = Ok s' \<and>
           (open_path s', trans s', Transactions (ofx s')) =
             resolve_spec name (open_path s) (trans s) (Transactions (ofx s)) \<and>
           open_path s' = tl (dropWhile (\<lambda>e. e \<noteq> name) (open_path s)) \<and>
           s' = s\<lparr>ofx := (ofx s)\<lparr>Transactions := Transactions (ofx s')\<rparr>, trans := trans s',
                  stackPos := stackPos s'\<rparr>"
proof -
  obtain p c x where r: "resolve_spec name (open_path s) (trans s) (Transactions (ofx s)) = (p, c, x)"
    by (metis prod_cases3)
  let ?s' = "s\<lparr>ofx := (ofx s)\<lparr>Transactions := x\<rparr>, trans := c, stackPos := length p\<rparr>"
  have run: "parse_token G s (EndElement name) = Ok ?s'"
    using end_element_resolve_aux[OF refl assms, of name] r by simp
  have p: "p = tl (dropWhile (\<lambda>e. e \<noteq> name) (open_path s))"
    using resolve_spec_path[of name "open_path s" "trans s" "Transactions (ofx s)"] r by simp
  obtain ys where "open_path s = ys @ p"
    using dropWhile_tl_suffix[of "open_path s" "\<lambda>e. e \<noteq> name"] p by blast
  then have op: "open_path ?s' = p" by (rule open_path_suffix)
  show ?thesis
    using run op p r by simp
qed

lemma sibling_run:
  "list_all sibling_field body \<Longrightarrow> trans s = Some tr \<Longrightarrow> nextK s \<noteq> transDatePosted \<Longrightarrow>
   nextK s \<noteq> transFitID \<Longrightarrow> stackPos s + length body \<le> length (stack s) \<Longrightarrow>
   \<exists>s' tr' xs. parse_loop G s body = Ok s' \<and> trans s' = Some tr' \<and> FitID tr' = FitID tr \<and>
     Transactions (ofx s') = Transactions (ofx s) \<and> open_path s' = xs @ open_path s \<and>
     ''STMTTRN'' \<notin> set xs \<and> stackPos s' \<le> length (stack s')"
proof (induction body arbitrary: s tr)
  case Nil
  then show ?case by simp
next
  case (Cons tok body)
  from Cons.prems(1) have tok: "sibling_field tok" and body: "list_all sibling_field body"
    by simp_all
  have "\<exists>s1 tr1 x1. parse_token G s tok = Ok s1 \<and> trans s1 = Some tr1 \<and> FitID tr1 = FitID tr \<and>
     Transactions (ofx s1) = Transactions (ofx s) \<and> open_path s1 = x1 @ open_path s \<and>
     ''STMTTRN'' \<notin> set x1 \<and> nextK s1 \<noteq> transDatePosted \<and> nextK s1 \<noteq> transFitID \<and>
     stackPos s1 + length body \<le> length (stack s1)"
  proof (cases tok)
    case (StartElement name)
    with tok have nm: "name \<noteq> ''STMTTRN''" "name \<noteq> ''FITID''" "name \<noteq> ''DTPOSTED''"
      by simp_all
    have lt: "stackPos s < length (stack s)" using Cons.prems(5) by simp
    from start_element_Ok[OF lt, of name] obtain s1 where s1: "start_element s name = Ok s1"
      by blast
    have "trans s1 = Some tr" using start_element_effect(6)[OF s1] nm Cons.prems(2) by simp
    moreover have "open_path s1 = [name] @ open_path s"
      using start_element_effect(2)[OF s1] by simp
    moreover have "nextK s1 \<noteq> transDatePosted"
      using start_element_nextK(2)[OF s1 nm(3)] Cons.prems(3) by auto
    moreover have "nextK s1 \<noteq> transFitID"
      using start_element_nextK(3)[OF s1 nm(2)] Cons.prems(4) by auto
    moreover have "stackPos s1 + length body \<le> length (stack s1)"
      using start_element_effect(4,5)[OF s1] Cons.prems(5) by simp
    moreover have "Transactions (ofx s1) = Transactions (ofx s)"
      using start_element_effect(3)[OF s1] by simp
    ultimately show ?thesis using s1 StartElement nm(1) by auto
  next
    case (CharData t)
    have "trans s \<noteq> None" using Cons.prems(2) by simp
    from char_data_total[OF this Cons.prems(3), of G t] obtain s1
      where s1: "char_data G s t = Ok s1" by blast
    from char_data_trans[OF s1 Cons.prems(2)] Cons.prems(4) obtain tr1
      where "trans s1 = Some tr1" "FitID tr1 = FitID tr" by blast
    moreover have "open_path s1 = [] @ open_path s"
      using char_data_frame(1,2)[OF s1] by (simp add: open_path_def)
    moreover have "nextK s1 \<noteq> transDatePosted" "nextK s1 \<noteq> transFitID"
      using char_data_frame(3)[OF s1] by simp_all
    moreover have "stackPos s1 + length body \<le> length (stack s1)"
      using char_data_frame(1,2)[OF s1] Cons.prems(5) by simp
    moreover have "Transactions (ofx s1) = Transactions (ofx s)"
      using char_data_frame(4)[OF s1] by simp
    ultimately show ?thesis using s1 CharData by (metis empty_iff empty_set parse_token.simps(2))
  qed (use tok in simp_all)
  then obtain s1 tr1 x1 where s1: "parse_token G s tok = Ok s1" and t1: "trans s1 = Some tr1"
    and f1: "FitID tr1 = FitID tr" and tx1: "Transactions (ofx s1) = Transactions (ofx s)"
    and p1: "open_path s1 = x1 @ open_path s" and n1: "''STMTTRN'' \<notin> set x1"
    and k1: "nextK s1 \<noteq> transDatePosted" "nextK s1 \<noteq> transFitID"
    and l1: "stackPos s1 + length body \<le> length (stack s1)"
    by blast
  from Cons.IH[OF body t1 k1 l1] obtain s' tr' xs where
    "parse_loop G s1 body = Ok s'" "trans s' = Some tr'" "FitID tr' = FitID tr1"
    "Transactions (ofx s') = Transactions (ofx s1)" "open_path s' = xs @ open_path s1"
    "''STMTTRN'' \<notin> set xs" "stackPos s' \<le> length (stack s')"
    by blast
  then have "parse_loop G s (tok # body) = Ok s' \<and> trans s' = Some tr' \<and> FitID tr' = FitID tr \<and>
     Transactions (ofx s') = Transactions (ofx s) \<and> open_path s' = (xs @ x1) @ open_path s \<and>
     ''STMTTRN'' \<notin> set (xs @ x1) \<and> stackPos s' \<le> length (stack s')"
    using s1 f1 tx1 p1 n1 by simp
  then show ?case by blast
qed

lemma implicit_close_document:
  assumes body: "list_all sibling_field body" and len: "length body \<le> 998"
  shows "\<exists>r tr. Parse G ([StartElement ''STMTTRN'', StartElement ''FITID'', CharData t] @ body @
                   [EndElement ''STMTTRN'']) = Ok r \<and>
           Transactions r = [Some tr] \<and> FitID tr = TrimSpace t"
proof -
  let ?s3 = "initial_state\<lparr>stack := (stack initial_state)[0 := ''STMTTRN'', 1 := ''FITID''],
       stackPos := 2, trans := Some (new_OfxTransaction\<lparr>FitID := TrimSpace t\<rparr>)\<rparr>"
  have head: "parse_loop G initial_state [StartElement ''STMTTRN'', StartElement ''FITID'', CharData t]
      = Ok ?s3"
    by (simp add: initial_state_def start_element_def switch_name_def char_data_def store_trans_def)
  have p3: "open_path ?s3 = [''FITID'', ''STMTTRN'']"
    by (simp add: open_path_def initial_state_def take_Suc_conv_app_nth numeral_2_eq_2)
  have "stackPos ?s3 + length body \<le> length (stack ?s3)"
    using len by (simp add: initial_state_def)
  from sibling_run[OF body _ _ _ this, of "new_OfxTransaction\<lparr>FitID := TrimSpace t\<rparr>" G]
  obtain s' tr' xs where run: "parse_loop G ?s3 body = Ok s'" and tr': "trans s' = Some tr'"
    and fit: "FitID tr' = TrimSpace t" and tx: "Transactions (ofx s') = []"
    and path: "open_path s' = xs @ [''FITID'', ''STMTTRN'']" and xs: "''STMTTRN'' \<notin> set xs"
    and ok: "stackPos s' \<le> length (stack s')"
    using p3 by (auto simp: initial_state_def new_Ofx_def)
  have "''STMTTRN'' \<notin> set (xs @ [''FITID''])" using xs by simp
  from resolve_spec_skip[OF this, of "[]" "Some tr'" "[]"] path
  have "resolve_spec ''STMTTRN'' (open_path s') (Some tr') [] = ([], None, [Some tr'])"
    by simp
  with end_element_resolve_aux[OF refl ok, of "''STMTTRN''"] tr' tx
  have "end_element ''STMTTRN'' s' =
      Ok (s'\<lparr>ofx := (ofx s')\<lparr>Transactions := [Some tr']\<rparr>, trans := None, stackPos := 0\<rparr>)"
    by simp
  then have last: "parse_loop G s' [EndElement ''STMTTRN''] =
      Ok (s'\<lparr>ofx := (ofx s')\<lparr>Transactions := [Some tr']\<rparr>, trans := None, stackPos := 0\<rparr>)"
    by simp
  let ?head = "[StartElement ''STMTTRN'', StartElement ''FITID'', CharData t]"
  have "parse_loop G initial_state (?head @ body @ [EndElement ''STMTTRN'']) =
      parse_loop G ?s3 (body @ [EndElement ''STMTTRN''])"
    by (simp only: parse_loop_append[of G initial_state ?head] head outcome.case)
  also have "\<dots> = parse_loop G s' [EndElement ''STMTTRN'']"
    by (simp only: parse_loop_append[of G ?s3 body] run outcome.case)
  finally have "Parse G (?head @ body @ [EndElement ''STMTTRN'']) =
      Ok ((ofx s')\<lparr>Transactions := [Some tr']\<rparr>)"
    using last by (simp add: Parse_def)
  with fit show ?thesis by simp
qed

text \<open>
  Claim C1. An end tag pops the path from the top until an entry equal to its name has
  been popped or the path is empty; each pass whose top entry is \<open>STMTTRN\<close> appends
  the current transaction to the list and clears the holder: the branch computes exactly
  \<open>resolve_spec\<close>, leaves the path below the first entry of that name, and changes
  nothing else. In particular, for a transaction block that begins with a \<open>FITID\<close>
  tag without its closing tag, goes on with sibling fields (start tags and text, no end
  tag) and ends with the end tag of the block, the list has exactly one transaction,
  and it carries the (trimmed) text of the id.
\<close>

theorem C1_closing_tag_resolution:
  "(stackPos s \<le> length (stack s) \<longrightarrow>
     (\<exists>s'. parse_token G s (EndElement name) = Ok s' \<and>
           (open_path s', trans s', Transactions (ofx s')) =
             resolve_spec name (open_path s) (trans s) (Transactions (ofx s)) \<and>
           open_path s' = tl (dropWhile (\<lambda>e. e \<noteq> name) (open_path s)) \<and>
           s' = s\<lparr>ofx := (ofx s)\<lparr>Transactions := Transactions (ofx s')\<rparr>, trans := trans s',
                  stackPos := stackPos s'\<rparr>)) \<and>
   (list_all sibling_field body \<and> length body \<le> 998 \<longrightarrow>
     (\<exists>r tr. Parse G ([StartElement ''STMTTRN'', StartElement ''FITID'', CharData t] @ body @
                   [EndElement ''STMTTRN'']) = Ok r \<and>
           Transactions r = [Some tr] \<and> FitID tr = TrimSpace t))"
  using end_element_spec[of s G name] implicit_close_document[of body G t] by blast

theorem C1_closing_tag_resolution_witness:
  "\<forall>G. stackPos (initial_state\<lparr>stack := (stack initial_state)[0 := ''STMTTRN'', 1 := ''FITID''],
            stackPos := 2, trans := Some (new_OfxTransaction\<lparr>FitID := ''1001''\<rparr>)\<rparr>) \<le> 1000 \<and>
        parse_token G
          (initial_state\<lparr>stack := (stack initial_state)[0 := ''STMTTRN'', 1 := ''FITID''],
            stackPos := 2, trans := Some (new_OfxTransaction\<lparr>FitID := ''1001''\<rparr>)\<rparr>)
          (EndElement ''STMTTRN'') =
          Ok (initial_state\<lparr>
                ofx := new_Ofx\<lparr>Transactions := [Some (new_OfxTransaction\<lparr>FitID := ''1001''\<rparr>)]\<rparr>,
                stack := (stack initial_state)[0 := ''STMTTRN'', 1 := ''FITID'']\<rparr>) \<and>
        list_all sibling_field [StartElement ''TRNAMT'', CharData ''-42.5''] \<and>
        (\<exists>r tr. Parse G [StartElement ''STMTTRN'', StartElement ''FITID'', CharData '' 1001 '',
                          StartElement ''TRNAMT'', CharData ''-42.5'', EndElement ''STMTTRN''] = Ok r \<and>
               Transactions r = [Some tr] \<and> FitID tr = ''1001'')"
proof
  fix G
  let ?s = "initial_state\<lparr>stack := (stack initial_state)[0 := ''STMTTRN'', 1 := ''FITID''],
            stackPos := 2, trans := Some (new_OfxTransaction\<lparr>FitID := ''1001''\<rparr>)\<rparr>"
  let ?body = "[StartElement ''TRNAMT'', CharData ''-42.5'']"
  note inst = C1_closing_tag_resolution[of ?s G "''STMTTRN''" ?body "'' 1001 ''"]
  have h1: "stackPos ?s \<le> length (stack ?s)" by (simp add: initial_state_def)
  have h2: "list_all sibling_field ?body \<and> length ?body \<le> 998" by simp
  from inst h1 obtain s' where s': "parse_token G ?s (EndElement ''STMTTRN'') = Ok s'"
    by blast
  have run: "parse_token G ?s (EndElement ''STMTTRN'') =
          Ok (initial_state\<lparr>
                ofx := new_Ofx\<lparr>Transactions := [Some (new_OfxTransaction\<lparr>FitID := ''1001''\<rparr>)]\<rparr>,
                stack := (stack initial_state)[0 := ''STMTTRN'', 1 := ''FITID'']\<rparr>)"
    by (simp add: initial_state_def end_element_pop end_element_match flush_top_def new_Ofx_def)
  from inst h2 have "\<exists>r tr. Parse G ([StartElement ''STMTTRN'', StartElement ''FITID'',
        CharData '' 1001 ''] @ ?body @ [EndElement ''STMTTRN'']) = Ok r \<and>
           Transactions r = [Some tr] \<and> FitID tr = TrimSpace '' 1001 ''"
    by blast
  then have doc: "\<exists>r tr. Parse G [StartElement ''STMTTRN'', StartElement ''FITID'',
        CharData '' 1001 '', StartElement ''TRNAMT'', CharData ''-42.5'', EndElement ''STMTTRN''] = Ok r \<and>
           Transactions r = [Some tr] \<and> FitID tr = ''1001''"
    by (simp add: TrimSpace_1001)
  from h1 run h2 doc
  show "stackPos ?s \<le> 1000 \<and>
        parse_token G ?s (EndElement ''STMTTRN'') =
          Ok (initial_state\<lparr>
                ofx := new_Ofx\<lparr>Transactions := [Some (new_OfxTransaction\<lparr>FitID := ''1001''\<rparr>)]\<rparr>,
                stack := (stack initial_state)[0 := ''STMTTRN'', 1 := ''FITID'']\<rparr>) \<and>
        list_all sibling_field ?body \<and>
        (\<exists>r tr. Parse G [StartElement ''STMTTRN'', StartElement ''FITID'', CharData '' 1001 '',
                          StartElement ''TRNAMT'', CharData ''-42.5'', EndElement ''STMTTRN''] = Ok r \<and>
               Transactions r = [Some tr] \<and> FitID tr = ''1001'')"
    by (simp add: initial_state_def)
qed

section \<open>The posted date\<close>

lemma digit_char_props:
  assumes "n < 10"
  shows "isDigit (digit_char n)" and "digit_val (digit_char n) = n"
  using assms by (simp_all add: isDigit_def digit_val_def digit_char_def)

lemma time_Parse_digits:
  assumes "a1 < 10" "a2 < 10" "a3 < 10" "a4 < 10" "a5 < 10" "a6 < 10" "a7 < 10" "a8 < 10"
  shows "time_Parse_20060102 [digit_char a1, digit_char a2, digit_char a3, digit_char a4,
           digit_char a5, digit_char a6, digit_char a7, digit_char a8] =
     (let y = 1000 * a1 + 100 * a2 + 10 * a3 + a4; m = 10 * a5 + a6; d = 10 * a7 + a8
      in if m = 0 \<or> 12 < m then None
         else if d < 1 \<or> daysIn m y < d then None
         else Some \<lparr>year = y, month = m, day = d\<rparr>)"
  unfolding time_Parse_20060102_def using assms by (simp add: digit_char_props)

lemma two_digits: "10 * (n div 10 mod 10) + n mod 10 = n" if "n < 100" for n :: nat
proof -
  have "n div 10 < 10" using that by (simp add: div_less_iff_less_mult)
  then have "n div 10 mod 10 = n div 10" by simp
  then show ?thesis by simp
qed

lemma digits_combine:
  "y = 10 * q1 + r1 \<Longrightarrow> q1 = 10 * q2 + r2 \<Longrightarrow> q2 = 10 * q3 + r3 \<Longrightarrow>
   1000 * q3 + 100 * r3 + 10 * r2 + r1 = y" for y :: nat
  by simp

lemma four_digits:
  "1000 * (y div 1000 mod 10) + 100 * (y div 100 mod 10) + 10 * (y div 10 mod 10) + y mod 10 = y"
  if "y \<le> 9999" for y :: nat
proof -
  have q: "y div 10 div 10 = y div 100" "y div 100 div 10 = y div 1000"
    by (simp_all add: div_mult2_eq[symmetric])
  have "y div 1000 < 10" using that by (simp add: div_less_iff_less_mult)
  then have top: "y div 1000 mod 10 = y div 1000" by simp
  have a: "y = 10 * (y div 10) + y mod 10" by simp
  have b: "y div 10 = 10 * (y div 100) + y div 10 mod 10"
    using mult_div_mod_eq[of 10 "y div 10"] by (simp only: q)
  have c: "y div 100 = 10 * (y div 1000) + y div 100 mod 10"
    using mult_div_mod_eq[of 10 "y div 100"] by (simp only: q)
  from digits_combine[OF a b c] show ?thesis by (simp only: top)
qed

lemma time_Parse_yyyymmdd:
  assumes "y \<le> 9999" and "1 \<le> m" and "m \<le> 12" and "1 \<le> d" and "d \<le> daysIn m y"
  shows "time_Parse_20060102 (yyyymmdd y m d) = Some \<lparr>year = y, month = m, day = d\<rparr>"
proof -
  have "daysIn m y \<le> 31" by (simp add: daysIn_def)
  then have d31: "d < 100" using assms(5) by simp
  have m100: "m < 100" using assms(3) by simp
  have "time_Parse_20060102 (yyyymmdd y m d) =
     (let y' = 1000 * (y div 1000 mod 10) + 100 * (y div 100 mod 10) + 10 * (y div 10 mod 10) + y mod 10;
          m' = 10 * (m div 10 mod 10) + m mod 10; d' = 10 * (d div 10 mod 10) + d mod 10
      in if m' = 0 \<or> 12 < m' then None
         else if d' < 1 \<or> daysIn m' y' < d' then None
         else Some \<lparr>year = y', month = m', day = d'\<rparr>)"
    unfolding yyyymmdd_def by (rule time_Parse_digits) simp_all
  also have "\<dots> = Some \<lparr>year = y, month = m, day = d\<rparr>"
    using assms by (simp only: four_digits[OF assms(1)] two_digits[OF m100] two_digits[OF d31] Let_def) simp
  finally show ?thesis .
qed

lemma trim_prefixes_length: "length (trim_prefixes es s) \<le> length s"
proof (induction es s rule: trim_prefixes.induct)
  case (1 es s)
  show ?case
  proof (cases "find (\<lambda>e. e \<noteq> [] \<and> take (length e) s = e) es")
    case None
    then show ?thesis by (simp add: trim_prefixes.simps[of es s])
  next
    case (Some e)
    with "1.IH"[OF Some] show ?thesis by (simp add: trim_prefixes.simps[of es s])
  qed
qed

lemma TrimSpace_length: "length (TrimSpace t) \<le> length t"
  unfolding TrimSpace_def
  by (metis length_rev trim_prefixes_length order_trans)

lemma trim_prefixes_id:
  assumes "\<forall>e\<in>set es. e \<noteq> [] \<longrightarrow> hd e \<noteq> c"
  shows "trim_prefixes es (c # s) = c # s"
proof -
  have "find (\<lambda>e. e \<noteq> [] \<and> take (length e) (c # s) = e) es = None"
  proof (rule ccontr)
    assume "find (\<lambda>e. e \<noteq> [] \<and> take (length e) (c # s) = e) es \<noteq> None"
    then obtain e where "e \<in> set es" "e \<noteq> []" "take (length e) (c # s) = e"
      by (auto simp: find_None_iff)
    from this(2,3) have "hd e = c" by (cases e) auto
    with assms \<open>e \<in> set es\<close> \<open>e \<noteq> []\<close> show False by blast
  qed
  then show ?thesis by (simp add: trim_prefixes.simps[of es "c # s"])
qed

lemma trim_prefixes_stop:
  assumes es: "\<forall>e\<in>set es. \<forall>x\<in>set e. \<not> P x" and y: "P y"
  shows "\<exists>xs'. trim_prefixes es (xs @ y # ys) = xs' @ y # ys"
proof (induction "length xs" arbitrary: xs rule: less_induct)
  case less
  show ?case
  proof (cases "find (\<lambda>e. e \<noteq> [] \<and> take (length e) (xs @ y # ys) = e) es")
    case None
    then have "trim_prefixes es (xs @ y # ys) = xs @ y # ys"
      by (simp add: trim_prefixes.simps[of es "xs @ y # ys"])
    then show ?thesis by blast
  next
    case (Some e)
    then have e: "e \<in> set es" "e \<noteq> []" "take (length e) (xs @ y # ys) = e"
      by (auto simp: find_Some_iff)
    have le: "length e \<le> length xs"
    proof (rule ccontr)
      assume "\<not> length e \<le> length xs"
      then have "length xs < length e" by simp
      then have "e ! length xs = (xs @ y # ys) ! length xs"
        using e(3) by (metis nth_take)
      then have "e ! length xs = y" by simp
      with \<open>length xs < length e\<close> have "y \<in> set e" by (metis nth_mem)
      with es e(1) y show False by blast
    qed
    then have dr: "drop (length e) (xs @ y # ys) = drop (length e) xs @ y # ys" by simp
    have "length (drop (length e) xs) < length xs" using e(2) le by (cases e) auto
    from less[OF this] obtain xs' where
      "trim_prefixes es (drop (length e) xs @ y # ys) = xs' @ y # ys" by blast
    then have "trim_prefixes es (xs @ y # ys) = xs' @ y # ys"
      using Some dr by (simp add: trim_prefixes.simps[of es "xs @ y # ys"])
    then show ?thesis by blast
  qed
qed

lemma space_not_digit:
  "\<forall>e\<in>set space_encodings. \<forall>x\<in>set e. \<not> isDigit x"
  "\<forall>e\<in>set (map rev space_encodings). \<forall>x\<in>set e. \<not> isDigit x"
  by (simp_all add: space_encodings_def isDigit_def)

lemma TrimSpace_digits:
  assumes "list_all isDigit ds" and "ds \<noteq> []"
  shows "\<exists>suf'. TrimSpace (ds @ suf) = ds @ suf'"
proof -
  obtain c cs where ds: "ds = c # cs" using assms(2) by (cases ds) auto
  with assms(1) have c: "isDigit c" by simp
  have "\<forall>e\<in>set space_encodings. e \<noteq> [] \<longrightarrow> hd e \<noteq> c"
    using space_not_digit(1) c by (metis hd_in_set)
  then have left: "trim_prefixes space_encodings (ds @ suf) = ds @ suf"
    by (simp add: ds trim_prefixes_id)
  obtain l bs where bs: "ds = bs @ [l]" using assms(2) by (metis rev_exhaust)
  with assms(1) have l: "isDigit l" by simp
  have "rev (ds @ suf) = rev suf @ l # rev bs" by (simp add: bs)
  with trim_prefixes_stop[OF space_not_digit(2), where y = l and xs = "rev suf" and ys = "rev bs"] l
  obtain xs' where "trim_prefixes (map rev space_encodings) (rev (ds @ suf)) = xs' @ l # rev bs"
    by auto
  then have "rev (trim_prefixes (map rev space_encodings) (rev (ds @ suf))) = ds @ rev xs'"
    by (simp add: bs)
  then have "TrimSpace (ds @ suf) = ds @ rev xs'"
    by (simp only: TrimSpace_def left)
  then show ?thesis by blast
qed

lemma yyyymmdd_digits:
  "list_all isDigit (yyyymmdd y m d)" "length (yyyymmdd y m d) = 8"
  by (simp_all add: yyyymmdd_def digit_char_props)

lemma yyyymmdd_example: "yyyymmdd 2023 1 15 = ''20230115''"
  by code_simp

lemma TrimSpace_short: "TrimSpace ''2023011'' = ''2023011''"
  by code_simp

text \<open>
  Claim C3. When the pending field is the posted date and a transaction is open, a text
  that begins with the eight digits of a calendar date (a year up to 9999, a month in
  1..12, a day of that month), followed by any bytes at all, stores exactly that date in
  the transaction; and a text shorter than 8 bytes makes \<open>Parse\<close> return the error
  \<open>Invalid date posted string\<close>, open transaction or not.
\<close>

theorem C3_posted_date:
  "(nextK s = transDatePosted \<and> trans s = Some tr \<and>
    y \<le> 9999 \<and> 1 \<le> m \<and> m \<le> 12 \<and> 1 \<le> d \<and> d \<le> daysIn m y \<longrightarrow>
      char_data G s (yyyymmdd y m d @ suffix) =
        Ok (s\<lparr>trans := Some (tr\<lparr>PostedDateTime := \<lparr>year = y, month = m, day = d\<rparr>\<rparr>),
              nextK := none\<rparr>)) \<and>
   (nextK s = transDatePosted \<and> length t < 8 \<longrightarrow>
      char_data G s t = Err (InvalidDatePosted (TrimSpace t)))"
proof (intro conjI impI)
  assume a: "nextK s = transDatePosted \<and> trans s = Some tr \<and>
    y \<le> 9999 \<and> 1 \<le> m \<and> m \<le> 12 \<and> 1 \<le> d \<and> d \<le> daysIn m y"
  have "yyyymmdd y m d \<noteq> []" by (simp add: yyyymmdd_def)
  from TrimSpace_digits[OF yyyymmdd_digits(1)[of y m d] this, where suf = suffix] obtain suf'
    where ts: "TrimSpace (yyyymmdd y m d @ suffix) = yyyymmdd y m d @ suf'" by blast
  have tk: "take 8 (TrimSpace (yyyymmdd y m d @ suffix)) = yyyymmdd y m d"
    by (simp add: ts yyyymmdd_digits(2))
  have ln: "\<not> length (TrimSpace (yyyymmdd y m d @ suffix)) < 8"
    by (simp add: ts yyyymmdd_digits(2))
  have "time_Parse_20060102 (yyyymmdd y m d) = Some \<lparr>year = y, month = m, day = d\<rparr>"
    using a by (simp add: time_Parse_yyyymmdd)
  then show "char_data G s (yyyymmdd y m d @ suffix) =
        Ok (s\<lparr>trans := Some (tr\<lparr>PostedDateTime := \<lparr>year = y, month = m, day = d\<rparr>\<rparr>),
              nextK := none\<rparr>)"
    using a tk ln by (simp add: char_data_def store_trans_def)
next
  assume "nextK s = transDatePosted \<and> length t < 8"
  moreover have "length (TrimSpace t) \<le> length t" by (rule TrimSpace_length)
  ultimately show "char_data G s t = Err (InvalidDatePosted (TrimSpace t))"
    by (simp add: char_data_def)
qed

theorem C3_posted_date_witness:
  "\<forall>G. (1::nat) \<le> 15 \<and> 15 \<le> daysIn 1 2023 \<and>
        char_data G (initial_state\<lparr>nextK := transDatePosted, trans := Some new_OfxTransaction\<rparr>)
          ''20230115120000[-5:EST]'' =
          Ok (initial_state\<lparr>trans := Some (new_OfxTransaction\<lparr>PostedDateTime :=
                \<lparr>year = 2023, month = 1, day = 15\<rparr>\<rparr>)\<rparr>) \<and>
        length ''2023011'' < 8 \<and>
        char_data G (initial_state\<lparr>nextK := transDatePosted, trans := Some new_OfxTransaction\<rparr>)
          ''2023011'' = Err (InvalidDatePosted ''2023011'')"
proof
  fix G
  let ?s = "initial_state\<lparr>nextK := transDatePosted, trans := Some new_OfxTransaction\<rparr>"
  note inst = C3_posted_date[of ?s new_OfxTransaction 2023 1 15 G "''120000[-5:EST]''" "''2023011''"]
  have h1: "nextK ?s = transDatePosted \<and> trans ?s = Some new_OfxTransaction \<and>
      (2023::nat) \<le> 9999 \<and> (1::nat) \<le> 1 \<and> (1::nat) \<le> 12 \<and> (1::nat) \<le> 15 \<and> 15 \<le> daysIn 1 2023"
    by (simp add: daysIn_def)
  have h2: "nextK ?s = transDatePosted \<and> length ''2023011'' < 8" by simp
  from inst h1 have a: "char_data G ?s (yyyymmdd 2023 1 15 @ ''120000[-5:EST]'') =
      Ok (?s\<lparr>trans := Some (new_OfxTransaction\<lparr>PostedDateTime :=
            \<lparr>year = 2023, month = 1, day = 15\<rparr>\<rparr>), nextK := none\<rparr>)"
    by blast
  from a have a': "char_data G ?s ''20230115120000[-5:EST]'' =
      Ok (?s\<lparr>trans := Some (new_OfxTransaction\<lparr>PostedDateTime :=
            \<lparr>year = 2023, month = 1, day = 15\<rparr>\<rparr>), nextK := none\<rparr>)"
    by (simp only: yyyymmdd_example append_Cons append_Nil)
  from inst h2 have b: "char_data G ?s ''2023011'' = Err (InvalidDatePosted (TrimSpace ''2023011''))"
    by blast
  from a' b h1 show "(1::nat) \<le> 15 \<and> 15 \<le> daysIn 1 2023 \<and>
        char_data G ?s ''20230115120000[-5:EST]'' =
          Ok (initial_state\<lparr>trans := Some (new_OfxTransaction\<lparr>PostedDateTime :=
                \<lparr>year = 2023, month = 1, day = 15\<rparr>\<rparr>)\<rparr>) \<and>
        length ''2023011'' < 8 \<and>
        char_data G ?s ''2023011'' = Err (InvalidDatePosted ''2023011'')"
    by (simp add: TrimSpace_short initial_state_def)
qed

section \<open>The errors that Parse returns\<close>














end
